theory Spec2Isabelle
  imports Complex_Main "HOL-Library.Multiset" "HOL-Library.Product_Lexorder"
begin

section \<open>JavaScript numbers\<close>

text \<open>
  The numbers that occur below are counters, their quotients, and the numbers of a JSON
  text. A finite double is a rational; \<open>x / 0\<close> with \<open>x > 0\<close> and a JSON number beyond the
  range of a double (\<open>1e999\<close>) give an infinity. \<open>NaN\<close> does not occur: no JSON text
  denotes it and no division below is \<open>0 / 0\<close>.
\<close>

datatype jsnum = Finite rat | PosInf | NegInf

fun jsnum_le :: "jsnum \<Rightarrow> rat \<Rightarrow> bool" where
  "jsnum_le (Finite q) b = (q \<le> b)"
| "jsnum_le PosInf b = False"
| "jsnum_le NegInf b = True"

fun jsnum_less :: "jsnum \<Rightarrow> rat \<Rightarrow> bool" where
  "jsnum_less (Finite q) b = (q < b)"
| "jsnum_less PosInf b = False"
| "jsnum_less NegInf b = True"

fun jsnum_greater :: "jsnum \<Rightarrow> rat \<Rightarrow> bool" where
  "jsnum_greater (Finite q) b = (b < q)"
| "jsnum_greater PosInf b = True"
| "jsnum_greater NegInf b = False"

section \<open>Star rating (src/src/App.tsx, \<open>stars\<close>)\<close>

text \<open>
  \<^verbatim>\<open>
  const stars = useMemo(()=>{
    if (moves === 0) return 3;
    const ratio = moves / pairs;
    if (ratio <= 1.2) return 3;
    if (ratio <= 2) return 2;
    return 1;
  }, [moves, pairs]);
  \<close>
  \<open>moves\<close> and \<open>pairs\<close> are counters, hence natural numbers. JavaScript's
  \<open>moves / pairs\<close> with \<open>pairs = 0\<close> and \<open>moves > 0\<close> is \<open>Infinity\<close>, which fails
  both comparisons; HOL's \<open>x / 0 = 0\<close> would pass them, so the case is written out.
  The quotient is taken in the rationals: the double nearest to \<open>1.2\<close> is compared with the
  correctly rounded quotient, and rounding is monotone, so the two comparisons agree with
  the exact ones unless \<open>moves / pairs\<close> lies within \<open>2^-52\<close> above \<open>1.2\<close>, which needs
  \<open>pairs\<close> beyond \<open>10^14\<close>.
\<close>

definition js_div_pos :: "nat \<Rightarrow> nat \<Rightarrow> jsnum" where
  \<comment> \<open>\<open>m / p\<close> for a positive \<open>m\<close>\<close>
  "js_div_pos m p = (if p = 0 then PosInf else Finite (of_nat m / of_nat p))"

definition stars :: "nat \<Rightarrow> nat \<Rightarrow> nat" where
  "stars moves pairs =
     (if moves = 0 then 3
      else let ratio = js_div_pos moves pairs in
        if jsnum_le ratio (12 / 10) then 3
        else if jsnum_le ratio 2 then 2
        else 1)"

section \<open>Deck generation (src/src/App.tsx, \<open>shuffle\<close>, \<open>EMOJI_POOL\<close>, \<open>generateDeck\<close>)\<close>

text \<open>
  A card. \<open>id\<close> and \<open>pairId\<close> are ASCII strings built by the generator; \<open>content\<close> is a
  JavaScript string, kept as its list of Unicode code points. The field \<open>id\<close> of the
  source is \<open>cardId\<close> here (\<open>id\<close> is the identity function of HOL).
\<close>

record Card =
  cardId :: string
  pairId :: string
  content :: "nat list"
  matched :: bool

text \<open>
  \<^verbatim>\<open>
  function shuffle<T>(arr: T[]) {
    const a = arr.slice();
    for (let i = a.length - 1; i > 0; i--) {
      const j = Math.floor(Math.random() * (i + 1));
      [a[i], a[j]] = [a[j], a[i]];
    }
    return a;
  }
  \<close>
  \<open>Math.random()\<close> lies in \<open>[0, 1)\<close>, so \<open>j\<close> is an integer between \<open>0\<close> and \<open>i\<close>. The
  random source is a parameter \<open>rnd\<close>: the draw made at loop index \<open>i\<close> is
  \<open>rnd i mod (i + 1)\<close>, which ranges over exactly those integers.
\<close>

fun shuffle_loop :: "(nat \<Rightarrow> nat) \<Rightarrow> nat \<Rightarrow> 'a list \<Rightarrow> 'a list" where
  "shuffle_loop rnd 0 a = a"
| "shuffle_loop rnd (Suc k) a =
     (let i = Suc k;
          j = rnd i mod (i + 1)
      in shuffle_loop rnd k (a[i := a ! j, j := a ! i]))"

definition shuffle :: "(nat \<Rightarrow> nat) \<Rightarrow> 'a list \<Rightarrow> 'a list" where
  "shuffle rnd arr = shuffle_loop rnd (length arr - 1) arr"

text \<open>
  A random source whose draw at index \<open>i\<close> is \<open>i\<close> itself (\<open>Math.random()\<close> just below 1
  every time): each position is swapped with itself.
\<close>

definition top_draw :: "nat \<Rightarrow> nat" where
  "top_draw i = i"

text \<open>The 28 glyphs of the pool, each a single code point (U+1F34E, U+1F34C, ...).\<close>

definition EMOJI_POOL :: "nat list list" where
  "EMOJI_POOL =
     [[127822], [127820], [127815], [127827], [129361], [127826], [127819],
      [127817], [129365], [127814], [127821], [129381], [129373], [127805],
      [129382], [127825], [127824], [127818], [127828], [127829], [127849],
      [127850], [127851], [127871], [127856], [127855], [129472], [129384]]"

text \<open>
  \<open>arr.slice(0, end)\<close>: a negative \<open>end\<close> counts from the end of the array, and the result
  is clamped to the array.
\<close>

definition slice0 :: "'a list \<Rightarrow> int \<Rightarrow> 'a list" where
  "slice0 xs e = (if e < 0 then take (nat (int (length xs) + e)) xs else take (nat e) xs)"

text \<open>The decimal rendering of an index, as the template literal \<open>`p${idx}`\<close> produces it.\<close>

definition digit_char :: "nat \<Rightarrow> char" where
  "digit_char d = char_of (48 + d)"

function string_of_nat :: "nat \<Rightarrow> string" where
  "string_of_nat n =
     (if n < 10 then [digit_char n] else string_of_nat (n div 10) @ [digit_char (n mod 10)])"
  by pat_completeness auto
termination
  by (relation "measure (\<lambda>n. n)") auto

text \<open>
  \<^verbatim>\<open>
  function generateDeck(pairs: number) {
    const pool = shuffle(EMOJI_POOL).slice(0, pairs);
    const deck: Card[] = pool.flatMap((emoji, idx) => {
      const pairId = `p${idx}`;
      const a: Card = { id: pairId + 'a', pairId, content: emoji, matched: false };
      const b: Card = { id: pairId + 'b', pairId, content: emoji, matched: false };
      return [a, b];
    });
    return shuffle(deck);
  }
  \<close>
  \<open>rnd1\<close> and \<open>rnd2\<close> are the random sources of the two shuffles.
\<close>

definition pair_cards :: "nat \<times> nat list \<Rightarrow> Card list" where
  "pair_cards = (\<lambda>(idx, emoji).
     let pid = ''p'' @ string_of_nat idx;
         a = \<lparr>cardId = pid @ ''a'', pairId = pid, content = emoji, matched = False\<rparr>;
         b = \<lparr>cardId = pid @ ''b'', pairId = pid, content = emoji, matched = False\<rparr>
     in [a, b])"

definition generateDeck :: "(nat \<Rightarrow> nat) \<Rightarrow> (nat \<Rightarrow> nat) \<Rightarrow> int \<Rightarrow> Card list" where
  "generateDeck rnd1 rnd2 pairs =
     (let pool = slice0 (shuffle rnd1 EMOJI_POOL) pairs;
          deck = concat (map pair_cards (enumerate 0 pool))
      in shuffle rnd2 deck)"

text \<open>Reading a decimal rendering back (used to show that distinct indices give distinct pair identities).\<close>

definition nat_of_string :: "string \<Rightarrow> nat" where
  "nat_of_string s = foldl (\<lambda>a c. 10 * a + (of_char c - 48)) 0 s"

section \<open>Game state (src/src/App.tsx, component \<open>App\<close>)\<close>

datatype Difficulty = easy | medium | hard

text \<open>
  \<open>type Score = { name; seconds; moves; difficulty; date }\<close>. The date is the ISO-8601
  rendering of an instant; the instant itself (milliseconds since the epoch) is kept.
\<close>

record Score =
  score_name :: string
  score_seconds :: nat
  score_moves :: nat
  score_difficulty :: Difficulty
  score_date :: int

text \<open>
  The callback that \<open>handleFlip\<close> hands to \<open>setTimeout\<close> on a match closes over the
  values of the render in which the flip happened: \<open>card.pairId\<close>, \<open>matches\<close>, \<open>pairs\<close>,
  \<open>name\<close>, \<open>seconds\<close>, \<open>moves\<close> and \<open>difficulty\<close>. The callback of a mismatch closes over
  nothing.
\<close>

record closure =
  cl_pairId :: string
  cl_matches :: nat
  cl_pairs :: nat
  cl_name :: string
  cl_seconds :: nat
  cl_moves :: nat
  cl_difficulty :: Difficulty

datatype timer = MatchTimer closure | MismatchTimer

text \<open>
  The state of the component: the \<open>useState\<close> cells that the game logic reads or writes,
  and the callbacks registered with \<open>setTimeout\<close> that have not fired yet, each with the
  instant at which it is due (\<open>timers\<close>, in the order of registration; no code path cancels
  them). \<open>setDeck\<close> always stores a new array, and the effect that installs the keydown
  listener compares the array by identity: \<open>deckId\<close> numbers the arrays stored so far and
  stands for that identity. The display-only cells \<open>leaderboard\<close> and \<open>compact\<close> are left out.
\<close>

record game =
  difficulty :: Difficulty
  pairs :: nat
  deck :: "Card list"
  deckId :: nat
  flipped :: "string list"
  moves :: nat
  matches :: nat
  seconds :: nat
  running :: bool
  locked :: bool
  name :: string
  focusedIndex :: "int option"
  timers :: "(int \<times> timer) list"

text \<open>\<open>const map = { easy: 8, medium: 12, hard: 18 }\<close>\<close>

fun pairs_of :: "Difficulty \<Rightarrow> nat" where
  "pairs_of easy = 8"
| "pairs_of medium = 12"
| "pairs_of hard = 18"

text \<open>
  \<^verbatim>\<open>
  function restart(p = pairs) {
    setDeck(generateDeck(p)); setFlipped([]); setMoves(0); setMatches(0);
    setSeconds(0); setRunning(false); setLocked(false); setFocusedIndex(null);
  }
  \<close>
\<close>

definition restart :: "(nat \<Rightarrow> nat) \<Rightarrow> (nat \<Rightarrow> nat) \<Rightarrow> nat \<Rightarrow> game \<Rightarrow> game" where
  "restart rnd1 rnd2 p g =
     g\<lparr>deck := generateDeck rnd1 rnd2 (int p), deckId := deckId g + 1, flipped := [],
       moves := 0, matches := 0, seconds := 0, running := False, locked := False,
       focusedIndex := None\<rparr>"

text \<open>
  The state after mounting: the initial values of the cells, with the effect on
  \<open>difficulty\<close> run once (\<open>setPairs(12); restart(12)\<close>), which replaces the first deck.
\<close>

definition init :: "(nat \<Rightarrow> nat) \<Rightarrow> (nat \<Rightarrow> nat) \<Rightarrow> game" where
  "init rnd1 rnd2 =
     \<lparr>difficulty = medium, pairs = 12, deck = generateDeck rnd1 rnd2 12, deckId = 1,
      flipped = [], moves = 0, matches = 0, seconds = 0, running = False, locked = False,
      name = ''Player'', focusedIndex = None, timers = []\<rparr>"

text \<open>
  Choosing a difficulty in the selector. The effect depends on \<open>[difficulty]\<close>, so it runs
  only when the value changes: \<open>setPairs(map[difficulty]); restart(map[difficulty])\<close>.
\<close>

definition setDifficulty :: "Difficulty \<Rightarrow> (nat \<Rightarrow> nat) \<Rightarrow> (nat \<Rightarrow> nat) \<Rightarrow> game \<Rightarrow> game" where
  "setDifficulty d rnd1 rnd2 g =
     (if d = difficulty g then g
      else restart rnd1 rnd2 (pairs_of d) (g\<lparr>difficulty := d, pairs := pairs_of d\<rparr>))"

text \<open>\<open>arr.findIndex(p)\<close>: the index of the first element that satisfies \<open>p\<close>, or \<open>-1\<close>.\<close>

fun findIndex :: "('a \<Rightarrow> bool) \<Rightarrow> 'a list \<Rightarrow> int" where
  "findIndex p [] = - 1"
| "findIndex p (x # xs) =
     (if p x then 0 else let r = findIndex p xs in if r < 0 then - 1 else r + 1)"

text \<open>
  \<^verbatim>\<open>
  function handleFlip(cardId: string) {
    if (locked) return;
    const card = deck.find(c => c.id === cardId);
    if (!card || card.matched) return;
    if (!running) setRunning(true);
    if (flipped.includes(cardId)) return;
    if (flipped.length === 0) {
      setFlipped([cardId]);
      const idx = deck.findIndex(c=>c.id===cardId);
      setFocusedIndex(idx);
      return;
    }
    if (flipped.length === 1) {
      const firstId = flipped[0];
      const firstCard = deck.find(c=>c.id===firstId)!;
      setFlipped([firstId, cardId]);
      setLocked(true);
      setMoves(m => m+1);
      if (firstCard.pairId === card.pairId) { setTimeout(async ()=>{ ... }, 600); }
      else { setTimeout(()=>{ ... }, 800); }
      return;
    }
  }
  \<close>
  \<open>handleFlip\<close> is a closure of one render: \<open>locked\<close>, \<open>deck\<close>, \<open>running\<close>, \<open>flipped\<close>,
  \<open>matches\<close>, \<open>pairs\<close>, \<open>name\<close>, \<open>seconds\<close>, \<open>moves\<close> and \<open>difficulty\<close> are the values of
  that render, \<open>r\<close>, while its updates act on the state at the time of the call, \<open>g\<close>
  (\<open>setMoves(m => m+1)\<close> counts from the current counter). A card button calls the
  \<open>handleFlip\<close> of the current render (\<open>r = g\<close>); the keydown listener calls the one of the
  render in which it was installed. \<open>now\<close> is the instant of the call, from which the
  delay of the callback runs.

  When the first flipped id is not in the deck, \<open>firstCard\<close> is \<open>undefined\<close> and reading
  \<open>firstCard.pairId\<close> throws a TypeError after the three updates were queued and before
  any timer is registered: the outcome \<open>Threw\<close>. The variable \<open>card\<close> of the source is
  \<open>card'\<close> (\<open>card\<close> is the cardinality of a set in HOL).
\<close>

datatype 'a outcome = Returned 'a | Threw 'a

fun state_of :: "'a outcome \<Rightarrow> 'a" where
  "state_of (Returned g) = g"
| "state_of (Threw g) = g"

definition handleFlip :: "string \<Rightarrow> int \<Rightarrow> game \<Rightarrow> game \<Rightarrow> game outcome" where
  "handleFlip cid now r g =
     (if locked r then Returned g
      else case find (\<lambda>c. cardId c = cid) (deck r) of
        None \<Rightarrow> Returned g
      | Some card' \<Rightarrow>
          if matched card' then Returned g
          else
            let g1 = (if \<not> running r then g\<lparr>running := True\<rparr> else g) in
            if cid \<in> set (flipped r) then Returned g1
            else if length (flipped r) = 0 then
              Returned (g1\<lparr>flipped := [cid],
                           focusedIndex := Some (findIndex (\<lambda>c. cardId c = cid) (deck r))\<rparr>)
            else if length (flipped r) = 1 then
              let firstId = flipped r ! 0;
                  g2 = g1\<lparr>flipped := [firstId, cid], locked := True, moves := moves g + 1\<rparr>
              in (case find (\<lambda>c. cardId c = firstId) (deck r) of
                    None \<Rightarrow> Threw g2
                  | Some firstCard \<Rightarrow>
                      if pairId firstCard = pairId card' then
                        Returned (g2\<lparr>timers := timers g @
                          [(now + 600,
                            MatchTimer \<lparr>cl_pairId = pairId card', cl_matches = matches r,
                              cl_pairs = pairs r, cl_name = name r, cl_seconds = seconds r,
                              cl_moves = moves r, cl_difficulty = difficulty r\<rparr>)]\<rparr>)
                      else Returned (g2\<lparr>timers := timers g @ [(now + 800, MismatchTimer)]\<rparr>))
            else Returned g1)"

text \<open>
  The callback of a match, run at instant \<open>now\<close>:
  \<^verbatim>\<open>
  setDeck(prev => prev.map(c => c.pairId === card.pairId ? {...c, matched: true} : c));
  setFlipped([]);
  setMatches(m => m+1);
  setLocked(false);
  const newMatchCount = matches + 1;
  if (newMatchCount === pairs) {
    setRunning(false);
    const s: Score = { name: name || 'Player', seconds, moves: moves+1, difficulty,
                       date: new Date().toISOString() };
    saveScoreRemote(s);
    saveScoreLocal(s);
    ...
  }
  \<close>
  \<open>setDeck\<close> and \<open>setMatches\<close> act on the state at the time the callback runs; \<open>matches\<close>,
  \<open>pairs\<close>, \<open>name\<close>, \<open>seconds\<close>, \<open>moves\<close> and \<open>difficulty\<close> are the captured values. The
  result is the new state and the score handed to the score recorder, if any.
\<close>

definition matchTimeout :: "closure \<Rightarrow> int \<Rightarrow> game \<Rightarrow> game \<times> Score option" where
  "matchTimeout cl now g =
     (let g1 = g\<lparr>deck := map (\<lambda>c. if pairId c = cl_pairId cl then c\<lparr>matched := True\<rparr> else c)
                           (deck g),
                 deckId := deckId g + 1,
                 flipped := [], matches := matches g + 1, locked := False\<rparr>;
          newMatchCount = cl_matches cl + 1
      in if newMatchCount = cl_pairs cl then
           (g1\<lparr>running := False\<rparr>,
            Some \<lparr>score_name = (if cl_name cl = [] then ''Player'' else cl_name cl),
                  score_seconds = cl_seconds cl, score_moves = cl_moves cl + 1,
                  score_difficulty = cl_difficulty cl, score_date = now\<rparr>)
         else (g1, None))"

text \<open>The callback of a mismatch: \<open>setFlipped([]); setLocked(false);\<close>\<close>

definition mismatchTimeout :: "game \<Rightarrow> game" where
  "mismatchTimeout g = g\<lparr>flipped := [], locked := False\<rparr>"

text \<open>
  The callback that is due first, with the others; of two that are due at the same instant
  the one registered first.
\<close>

fun due_first :: "(int \<times> 'a) list \<Rightarrow> ((int \<times> 'a) \<times> (int \<times> 'a) list) option" where
  "due_first [] = None"
| "due_first (x # xs) =
     (case due_first xs of
        None \<Rightarrow> Some (x, [])
      | Some (y, ys) \<Rightarrow> if fst x \<le> fst y then Some (x, xs) else Some (y, x # ys))"

text \<open>
  The timer event at instant \<open>now\<close>: the callback due first runs and leaves the list, if
  it is due.
\<close>

definition fireTimer :: "int \<Rightarrow> game \<Rightarrow> game \<times> Score option" where
  "fireTimer now g =
     (case due_first (timers g) of
        None \<Rightarrow> (g, None)
      | Some ((due, t), ts) \<Rightarrow>
          if now < due then (g, None)
          else (case t of
                  MatchTimer cl \<Rightarrow> matchTimeout cl now (g\<lparr>timers := ts\<rparr>)
                | MismatchTimer \<Rightarrow> (mismatchTimeout (g\<lparr>timers := ts\<rparr>), None)))"

text \<open>
  The Start/Pause button: \<open>setRunning(r=>!r); if (!running) setRunning(true);\<close> (both
  updates give \<open>true\<close> when the game was not running, the first gives \<open>false\<close> when it was).
  The interval: \<open>setSeconds(s => s+1)\<close> once per second while \<open>running\<close>.
\<close>

definition startPause :: "game \<Rightarrow> game" where
  "startPause g = (if \<not> running g then g\<lparr>running := True\<rparr> else g\<lparr>running := False\<rparr>)"

definition tick :: "game \<Rightarrow> game" where
  "tick g = (if running g then g\<lparr>seconds := seconds g + 1\<rparr> else g)"

text \<open>
  The keydown listener:
  \<^verbatim>\<open>
  useEffect(()=>{
    function onKey(e: KeyboardEvent) {
      if (!gridRef.current) return;
      const total = deck.length;
      if (total === 0) return;
      if (e.key === 'ArrowRight' || e.key === 'ArrowDown') {
        setFocusedIndex(fi => { const next = (fi === null ? 0 : (fi + 1) % total); return next; });
      } else if (e.key === 'ArrowLeft' || e.key === 'ArrowUp') {
        setFocusedIndex(fi => { const prev = (fi === null ? 0 : (fi - 1 + total) % total); return prev; });
      } else if (e.key === 'Enter' || e.key === ' ') {
        if (focusedIndex !== null) {
          const card = deck[focusedIndex];
          handleFlip(card.id);
        }
      }
    }
    window.addEventListener('keydown', onKey);
    return ()=> window.removeEventListener('keydown', onKey);
  }, [deck, focusedIndex]);
  \<close>
  The listener is a closure of the render \<open>r\<close> in which the effect last ran, and so is the
  \<open>handleFlip\<close> it calls. The grid is always mounted. \<open>%\<close> is the remainder of JavaScript,
  with the sign of the dividend; \<open>deck[i]\<close> outside the array is \<open>undefined\<close>, and reading
  its \<open>id\<close> throws a TypeError before anything is updated.
\<close>

datatype key = ArrowNext | ArrowPrev | Enter

definition js_rem :: "int \<Rightarrow> int \<Rightarrow> int" where
  "js_rem a b = (if a < 0 then - ((- a) mod \<bar>b\<bar>) else a mod \<bar>b\<bar>)"

definition onKey :: "key \<Rightarrow> int \<Rightarrow> game \<Rightarrow> game \<Rightarrow> game outcome" where
  "onKey k now r g =
     (let total = int (length (deck r)) in
      if total = 0 then Returned g
      else case k of
        ArrowNext \<Rightarrow>
          Returned (g\<lparr>focusedIndex :=
            Some (case focusedIndex g of None \<Rightarrow> 0 | Some fi \<Rightarrow> js_rem (fi + 1) total)\<rparr>)
      | ArrowPrev \<Rightarrow>
          Returned (g\<lparr>focusedIndex :=
            Some (case focusedIndex g of None \<Rightarrow> 0 | Some fi \<Rightarrow> js_rem (fi - 1 + total) total)\<rparr>)
      | Enter \<Rightarrow>
          (case focusedIndex r of
             None \<Rightarrow> Returned g
           | Some i \<Rightarrow>
               if 0 \<le> i \<and> i < total then handleFlip (cardId (deck r ! nat i)) now r g
               else Threw g))"

text \<open>
  The component between two events: the current state, which is also the current render,
  and the render in which the keydown listener was installed. After an event the effect
  runs again, and the listener becomes a closure of the new render, exactly when \<open>deck\<close> is
  a new array or \<open>focusedIndex\<close> has a new value (the dependencies \<open>[deck, focusedIndex]\<close>).
\<close>

record app =
  current :: game
  listener :: game

definition rerender :: "app \<Rightarrow> game \<Rightarrow> app" where
  "rerender a g' =
     \<lparr>current = g',
      listener = (if deckId g' \<noteq> deckId (current a) \<or> focusedIndex g' \<noteq> focusedIndex (current a)
                  then g' else listener a)\<rparr>"

definition mounted :: "(nat \<Rightarrow> nat) \<Rightarrow> (nat \<Rightarrow> nat) \<Rightarrow> app" where
  "mounted rnd1 rnd2 = \<lparr>current = init rnd1 rnd2, listener = init rnd1 rnd2\<rparr>"

text \<open>
  The events of a session and the state they lead to: a click on the button of a card, a
  key, a timer event, the restart button, the difficulty selector, the Start/Pause button
  and the tick of the interval. Clicks, keys and timer events carry their instant.
  \<open>allMatched\<close> is \<open>deck.every(c => c.matched)\<close>.
\<close>

datatype event =
    Click string int
  | Key key int
  | Timeout int
  | RestartClick "nat \<Rightarrow> nat" "nat \<Rightarrow> nat"
  | SelectDifficulty Difficulty "nat \<Rightarrow> nat" "nat \<Rightarrow> nat"
  | StartPause
  | Tick

fun step :: "app \<Rightarrow> event \<Rightarrow> app" where
  "step a (Click cid now) = rerender a (state_of (handleFlip cid now (current a) (current a)))"
| "step a (Key k now) = rerender a (state_of (onKey k now (listener a) (current a)))"
| "step a (Timeout now) = rerender a (fst (fireTimer now (current a)))"
| "step a (RestartClick rnd1 rnd2) =
     rerender a (restart rnd1 rnd2 (pairs (current a)) (current a))"
| "step a (SelectDifficulty d rnd1 rnd2) = rerender a (setDifficulty d rnd1 rnd2 (current a))"
| "step a StartPause = rerender a (startPause (current a))"
| "step a Tick = rerender a (tick (current a))"

definition run :: "app \<Rightarrow> event list \<Rightarrow> app" where
  "run a evs = foldl step a evs"

definition allMatched :: "game \<Rightarrow> bool" where
  "allMatched g = list_all matched (deck g)"

text \<open>
  An event is a two-card reveal when it takes the flipped list from one id to two.
\<close>

definition two_card_reveal :: "app \<Rightarrow> event \<Rightarrow> bool" where
  "two_card_reveal a ev =
     (length (flipped (current a)) = 1 \<and> length (flipped (current (step a ev))) = 2)"

text \<open>
  Consistency of a state. The deck has \<open>pairs\<close> pair identities (at most the 28 of the
  pool), the two cards of a pair are matched together, and \<open>matches\<close> counts the matched
  pairs; at most one callback is pending, only while input is locked, and the callback of a
  match is for a pair that is still unmatched. The keydown listener sees the current deck.
\<close>

definition timer_ok :: "game \<Rightarrow> bool" where
  "timer_ok g =
     (case timers g of
        [] \<Rightarrow> True
      | [x] \<Rightarrow>
          locked g
          \<and> (case snd x of
                MatchTimer cl \<Rightarrow> cl_pairId cl \<in> pairId ` {c \<in> set (deck g). \<not> matched c}
              | MismatchTimer \<Rightarrow> True)
      | _ \<Rightarrow> False)"

definition deck_ok :: "game \<Rightarrow> bool" where
  "deck_ok g =
     (pairs g \<le> 28
      \<and> card (pairId ` set (deck g)) = pairs g
      \<and> matches g = card (pairId ` {c \<in> set (deck g). matched c})
      \<and> (\<forall>c \<in> set (deck g). \<forall>d \<in> set (deck g). pairId c = pairId d \<longrightarrow> matched c = matched d))"

definition consistent :: "app \<Rightarrow> bool" where
  "consistent a =
     (deck_ok (current a) \<and> timer_ok (current a) \<and> deck (listener a) = deck (current a))"

text \<open>
  Sessions in which no callback outlives its deck and no key is handled by a listener that
  has missed the lock: the restart button and the difficulty selector are used only when no
  callback is registered, and Enter is pressed while input is locked only when the render
  of the listener is locked as well.
\<close>

fun orderly_event :: "app \<Rightarrow> event \<Rightarrow> bool" where
  "orderly_event a (RestartClick rnd1 rnd2) = (timers (current a) = [])"
| "orderly_event a (SelectDifficulty d rnd1 rnd2) = (timers (current a) = [])"
| "orderly_event a (Key Enter now) = (locked (current a) \<longrightarrow> locked (listener a))"
| "orderly_event a ev = True"

fun orderly :: "app \<Rightarrow> event list \<Rightarrow> bool" where
  "orderly a [] = True"
| "orderly a (ev # evs) = (orderly_event a ev \<and> orderly (step a ev) evs)"

section \<open>Leaderboard service (src/server/db.js, src/server/index.js)\<close>

text \<open>
  A value of a parsed JSON request body, as far as the handlers look at it: a missing
  field is \<open>JUndefined\<close>; \<open>JObject\<close> stands for any object or array (both are truthy and
  of type \<open>object\<close>).
\<close>

datatype jsvalue = JUndefined | JNull | JBool bool | JNum jsnum | JStr string | JObject

fun truthy :: "jsvalue \<Rightarrow> bool" where
  "truthy JUndefined = False"
| "truthy JNull = False"
| "truthy (JBool b) = b"
| "truthy (JNum (Finite q)) = (q \<noteq> 0)"
| "truthy (JNum PosInf) = True"
| "truthy (JNum NegInf) = True"
| "truthy (JStr s) = (s \<noteq> [])"
| "truthy JObject = True"

text \<open>\<open>typeof v === 'number'\<close>\<close>

fun is_number :: "jsvalue \<Rightarrow> bool" where
  "is_number (JNum x) = True"
| "is_number v = False"

text \<open>\<open>const { name, seconds, moves, difficulty } = req.body || {};\<close>\<close>

record body =
  body_name :: jsvalue
  body_seconds :: jsvalue
  body_moves :: jsvalue
  body_difficulty :: jsvalue

text \<open>
  The table \<open>scores\<close> of db.js. \<open>created_at\<close> holds \<open>new Date().toISOString()\<close>; for the
  instants of the years 0000 to 9999 these texts have one fixed width and their order as
  texts, which the query compares, is the order of the instants, so a row carries the instant
  (milliseconds since the epoch). \<open>id\<close> is \<open>INTEGER PRIMARY KEY AUTOINCREMENT\<close>: one more
  than the largest id ever given, kept in \<open>seq\<close>.
\<close>

record entry =
  entry_name :: string
  entry_seconds :: rat
  entry_moves :: rat
  entry_difficulty :: string
  created_at :: int

record db =
  rows :: "(nat \<times> entry) list"
  seq :: nat

datatype response = Json200 "nat \<times> entry" | Error400 string | Error500

text \<open>
  What the driver binds to a \<open>TEXT\<close> column: a string as it is, a number as the text
  SQLite renders for it (\<open>render\<close>, a parameter); for a boolean or an object \<open>stmt.run\<close>
  throws, and the request ends with status 500. An array is taken by the driver as a list
  of parameters of its own; a submission whose name or difficulty is an array is followed
  no further than the two guards and counts as failed here.
\<close>

fun bind_text :: "(jsnum \<Rightarrow> string) \<Rightarrow> jsvalue \<Rightarrow> string option" where
  "bind_text render (JStr s) = Some s"
| "bind_text render (JNum x) = Some (render x)"
| "bind_text render v = None"

text \<open>
  \<^verbatim>\<open>
  app.post('/api/scores', (req, res) => {
    const { name, seconds, moves, difficulty } = req.body || {};
    if (!name || typeof seconds !== 'number' || typeof moves !== 'number' || !difficulty) {
      return res.status(400).json({ error: 'Invalid payload' });
    }
    if (seconds < 0 || seconds > 86400 || moves < 0 || moves > 10000) {
      return res.status(400).json({ error: 'Invalid values' });
    }
    const created_at = new Date().toISOString();
    const stmt = db.prepare('INSERT INTO scores (name, seconds, moves, difficulty, created_at) VALUES (?, ?, ?, ?, ?)');
    const info = stmt.run(name, seconds, moves, difficulty, created_at);
    res.json({ id: info.lastInsertRowid, name, seconds, moves, difficulty, created_at });
  });
  \<close>
  The result is the response and the table afterwards; \<open>now\<close> is the clock of the server.
\<close>

definition post_scores :: "(jsnum \<Rightarrow> string) \<Rightarrow> int \<Rightarrow> body \<Rightarrow> db \<Rightarrow> response \<times> db" where
  "post_scores render now b d =
     (if \<not> truthy (body_name b) \<or> \<not> is_number (body_seconds b)
         \<or> \<not> is_number (body_moves b) \<or> \<not> truthy (body_difficulty b)
      then (Error400 ''Invalid payload'', d)
      else case (body_seconds b, body_moves b) of
        (JNum secs, JNum mvs) \<Rightarrow>
          if jsnum_less secs 0 \<or> jsnum_greater secs 86400
             \<or> jsnum_less mvs 0 \<or> jsnum_greater mvs 10000
          then (Error400 ''Invalid values'', d)
          else (case (secs, mvs, bind_text render (body_name b),
                      bind_text render (body_difficulty b)) of
                  (Finite s, Finite m, Some n, Some dif) \<Rightarrow>
                    let e = \<lparr>entry_name = n, entry_seconds = s, entry_moves = m,
                             entry_difficulty = dif, created_at = now\<rparr>;
                        i = seq d + 1
                    in (Json200 (i, e), d\<lparr>rows := rows d @ [(i, e)], seq := i\<rparr>)
                | _ \<Rightarrow> (Error500, d))
      | _ \<Rightarrow> (Error400 ''Invalid payload'', d))"

text \<open>
  \<open>parseInt(string)\<close> without a radix: leading white space is skipped, a sign is read, a
  prefix \<open>0x\<close> or \<open>0X\<close> selects radix 16, and the longest run of digits of the radix gives
  an integer; without such a digit the result is \<open>NaN\<close>, here \<open>None\<close>. The result is a
  JavaScript number: the double nearest to that integer.

  A string of the query is kept as the bytes of its UTF-8 encoding. The white space of
  \<open>parseInt\<close> is tab, line feed, vertical tab, form feed, carriage return and space (one
  byte each), U+00A0 (two bytes), and U+1680, U+2000 to U+200A, U+2028, U+2029, U+202F,
  U+205F, U+3000 and U+FEFF (three bytes each). \<open>space_width\<close> is the number of bytes of
  the white-space character at the head of a text, or 0.
\<close>

fun space_width :: "nat list \<Rightarrow> nat" where
  "space_width [] = 0"
| "space_width (b1 # bs) =
     (if b1 \<in> {9, 10, 11, 12, 13, 32} then 1
      else if b1 = 194 \<and> take 1 bs = [160] then 2
      else if b1 = 225 \<and> take 2 bs = [154, 128] then 3
      else if b1 = 226 \<and> take 1 bs = [128] \<and> take 1 (drop 1 bs) \<noteq> []
              \<and> (hd (drop 1 bs) \<in> {128..138} \<or> hd (drop 1 bs) \<in> {168, 169, 175}) then 3
      else if b1 = 226 \<and> take 2 bs = [129, 159] then 3
      else if b1 = 227 \<and> take 2 bs = [128, 128] then 3
      else if b1 = 239 \<and> take 2 bs = [187, 191] then 3
      else 0)"

function skip_space :: "string \<Rightarrow> string" where
  "skip_space s =
     (let w = space_width (map of_char s) in if w = 0 then s else skip_space (drop w s))"
  by pat_completeness auto
termination
proof (relation "measure length")
  show "wf (measure length)" by simp
next
  fix s :: string and w :: nat
  assume w: "w = space_width (map of_char s)" and "w \<noteq> 0"
  then have "s \<noteq> []" by (cases s) auto
  with \<open>w \<noteq> 0\<close> show "(drop w s, s) \<in> measure length" by simp
qed

definition digit_value :: "char \<Rightarrow> nat option" where
  "digit_value c =
     (let n = (of_char c :: nat) in
      if 48 \<le> n \<and> n \<le> 57 then Some (n - 48)
      else if 97 \<le> n \<and> n \<le> 122 then Some (n - 87)
      else if 65 \<le> n \<and> n \<le> 90 then Some (n - 55)
      else None)"

definition is_digit :: "nat \<Rightarrow> char \<Rightarrow> bool" where
  "is_digit radix c = (case digit_value c of Some v \<Rightarrow> v < radix | None \<Rightarrow> False)"

definition digits_value :: "nat \<Rightarrow> string \<Rightarrow> nat" where
  "digits_value radix ds =
     foldl (\<lambda>a c. radix * a + (case digit_value c of Some v \<Rightarrow> v | None \<Rightarrow> 0)) 0 ds"

text \<open>
  The double nearest to an integer, ties to the even significand: an integer of at most 53
  bits is a double; a longer one keeps its 53 leading bits, rounded, and is an infinity
  from \<open>2^1024\<close> on.
\<close>

function bit_length :: "nat \<Rightarrow> nat" where
  "bit_length n = (if n = 0 then 0 else Suc (bit_length (n div 2)))"
  by pat_completeness auto
termination
  by (relation "measure (\<lambda>n. n)") auto

definition round_double :: "int \<Rightarrow> jsnum" where
  "round_double n =
     (let a = nat \<bar>n\<bar>;
          e = bit_length a - 53
      in if e = 0 then Finite (of_int n)
         else
           let q = a div 2 ^ e;
               r = a mod 2 ^ e;
               q' = (if 2 ^ e < 2 * r \<or> (2 * r = 2 ^ e \<and> odd q) then q + 1 else q);
               v = q' * 2 ^ e
           in if 2 ^ 1024 \<le> v then (if n < 0 then NegInf else PosInf)
              else Finite (of_int (if n < 0 then - int v else int v)))"

definition parseInt :: "string \<Rightarrow> jsnum option" where
  "parseInt s =
     (let s1 = skip_space s;
          neg = (take 1 s1 = ''-'');
          s2 = (if take 1 s1 = ''-'' \<or> take 1 s1 = ''+'' then drop 1 s1 else s1);
          hex = (take 2 s2 = ''0x'' \<or> take 2 s2 = ''0X'');
          radix = (if hex then 16 else 10);
          s3 = (if hex then drop 2 s2 else s2);
          ds = takeWhile (is_digit radix) s3
      in if ds = [] then None
         else Some (round_double ((if neg then - 1 else 1) * int (digits_value radix ds))))"

text \<open>
  The query string of \<open>GET /api/leaderboard\<close>: each parameter is absent or a string.
  \<open>const limit = parseInt(req.query.limit) || 20;\<close> (\<open>NaN\<close> and \<open>0\<close> are falsy, the
  infinities are not; an absent parameter is \<open>undefined\<close>, which \<open>parseInt\<close> reads as the
  text \<open>undefined\<close>, without a digit). \<open>const difficulty = req.query.difficulty || null;\<close>
  (the empty string is falsy): a difficulty is given when the parameter is present and not
  empty.
\<close>

record query =
  query_difficulty :: "string option"
  query_limit :: "string option"

definition limit_of :: "query \<Rightarrow> jsnum" where
  "limit_of q =
     (case (case query_limit q of None \<Rightarrow> parseInt ''undefined'' | Some s \<Rightarrow> parseInt s) of
        None \<Rightarrow> Finite 20
      | Some x \<Rightarrow> if x = Finite 0 then Finite 20 else x)"

definition difficulty_of :: "query \<Rightarrow> string option" where
  "difficulty_of q =
     (case query_difficulty q of None \<Rightarrow> None | Some s \<Rightarrow> if s = [] then None else Some s)"

text \<open>
  The limit as the statement receives it. The driver binds a number that is a 32-bit integer
  as an integer and any other number as a real; \<open>LIMIT\<close> takes a real only when it is a
  whole number strictly between \<open>-2^63\<close> and \<open>2^63\<close>, and otherwise the statement fails
  (datatype mismatch) and the request ends with status 500, here \<open>None\<close>.
  \<open>LIMIT n\<close> with a negative \<open>n\<close> puts no bound on the number of rows.
\<close>

definition bind_limit :: "jsnum \<Rightarrow> int option" where
  "bind_limit x =
     (case x of
        Finite r \<Rightarrow>
          if of_int \<lfloor>r\<rfloor> = r \<and> - (2 ^ 63) < r \<and> r < 2 ^ 63 then Some \<lfloor>r\<rfloor> else None
      | PosInf \<Rightarrow> None
      | NegInf \<Rightarrow> None)"

definition sql_limit :: "int \<Rightarrow> 'a list \<Rightarrow> 'a list" where
  "sql_limit n xs = (if n < 0 then xs else take (nat n) xs)"

text \<open>
  \<^verbatim>\<open>
  const since = new Date(Date.now() - 24 * 60 * 60 * 1000).toISOString();
  if (difficulty) {
    'SELECT name, seconds, moves, difficulty, created_at FROM scores
       WHERE difficulty = ? AND created_at >= ? ORDER BY seconds ASC, moves ASC LIMIT ?'
    rows = stmt.all(difficulty, since, limit);
  } else {
    'SELECT name, seconds, moves, difficulty, created_at FROM scores
       WHERE created_at >= ? ORDER BY seconds ASC, moves ASC LIMIT ?'
    rows = stmt.all(since, limit);
  }
  res.json(rows);
  \<close>
  \<open>ORDER BY seconds ASC, moves ASC\<close> is the sort by the pair \<open>(seconds, moves)\<close> in the
  lexicographic order; rows with equal pairs keep the order of the table here. The answer
  is the rows, or status 500 when \<open>stmt.all\<close> throws.
\<close>

datatype reply = Rows "entry list" | Status500

definition leaderboard :: "int \<Rightarrow> query \<Rightarrow> db \<Rightarrow> reply" where
  "leaderboard now q d =
     (let difficulty = difficulty_of q;
          limit = limit_of q;
          since = now - 24 * 60 * 60 * 1000;
          selected =
            (case difficulty of
               Some dif \<Rightarrow>
                 filter (\<lambda>e. entry_difficulty e = dif \<and> since \<le> created_at e) (map snd (rows d))
             | None \<Rightarrow> filter (\<lambda>e. since \<le> created_at e) (map snd (rows d)))
      in case bind_limit limit of
           None \<Rightarrow> Status500
         | Some n \<Rightarrow> Rows (sql_limit n (sort_key (\<lambda>e. (entry_seconds e, entry_moves e)) selected)))"

text \<open>The rows of an answer; an answer with status 500 carries none.\<close>

fun rows_of :: "reply \<Rightarrow> entry list" where
  "rows_of (Rows es) = es"
| "rows_of Status500 = []"

text \<open>
  The \<open>WHERE\<close> clause of the two statements of the leaderboard query, as one predicate.
\<close>

definition qualifies :: "int \<Rightarrow> query \<Rightarrow> entry \<Rightarrow> bool" where
  "qualifies now q e =
     ((case difficulty_of q of Some dif \<Rightarrow> entry_difficulty e = dif | None \<Rightarrow> True)
      \<and> now - 86400000 \<le> created_at e)"

text \<open>
  A table at the instant of a query: every row was stamped with the clock of the server
  when it was inserted, so none is later than the query.
\<close>

definition stamped_by :: "int \<Rightarrow> db \<Rightarrow> bool" where
  "stamped_by now d = list_all (\<lambda>row. created_at (snd row) \<le> now) (rows d)"

section \<open>Local cache and score recorder (src/src/App.tsx)\<close>

text \<open>
  A string kept in \<open>localStorage\<close>, by what \<open>JSON.parse\<close> makes of it: the empty string
  and any other text that is not JSON make it throw a \<open>SyntaxError\<close>; a JSON text gives its
  value, either an array of score objects (what \<open>saveScoreLocal\<close> writes) or a value that is
  not an array. Arrays with other elements are not represented.
\<close>

datatype cache_value = ScoreArray "Score list" | NonArray jsvalue

datatype stored_text = EmptyText | Garbage | Json cache_value

datatype exn = SyntaxError | TypeError

definition JSON_parse :: "stored_text \<Rightarrow> exn + cache_value" where
  "JSON_parse t = (case t of EmptyText \<Rightarrow> Inl SyntaxError | Garbage \<Rightarrow> Inl SyntaxError | Json v \<Rightarrow> Inr v)"

definition JSON_stringify :: "cache_value \<Rightarrow> stored_text" where
  "JSON_stringify v = Json v"

definition STORAGE_KEY :: string where
  "STORAGE_KEY = ''concentration_game_leaderboard_v1''"

text \<open>
  \<^verbatim>\<open>
  function loadLeaderboard(): Score[] {
    try {
      const raw = localStorage.getItem(STORAGE_KEY);
      if (!raw) return [];
      return JSON.parse(raw) as Score[];
    } catch {
      return [];
    }
  }
  \<close>
  \<open>localStorage\<close> is a map from keys to texts. The cast \<open>as Score[]\<close> checks nothing.
\<close>

definition loadLeaderboard :: "(string \<rightharpoonup> stored_text) \<Rightarrow> exn + cache_value" where
  "loadLeaderboard ls =
     (let attempt =
            (case ls STORAGE_KEY of
               None \<Rightarrow> Inr (ScoreArray [])
             | Some raw \<Rightarrow> if raw = EmptyText then Inr (ScoreArray []) else JSON_parse raw)
      in case attempt of Inl e \<Rightarrow> Inr (ScoreArray []) | Inr v \<Rightarrow> Inr v)"

text \<open>
  \<^verbatim>\<open>
  function saveScoreLocal(score: Score) {
    const board = loadLeaderboard();
    board.push(score);
    board.sort((a, b) => a.seconds - b.seconds || a.moves - b.moves);
    const trimmed = board.slice(0, 20);
    localStorage.setItem(STORAGE_KEY, JSON.stringify(trimmed));
  }
  \<close>
  \<open>board.push\<close> throws a \<open>TypeError\<close> when \<open>board\<close> is not an array. The comparator orders
  by \<open>seconds\<close>, then by \<open>moves\<close>, and \<open>Array.prototype.sort\<close> is stable.
\<close>

definition saveScoreLocal :: "Score \<Rightarrow> (string \<rightharpoonup> stored_text) \<Rightarrow> exn + (string \<rightharpoonup> stored_text)" where
  "saveScoreLocal score ls =
     (case loadLeaderboard ls of
        Inl e \<Rightarrow> Inl e
      | Inr (NonArray v) \<Rightarrow> Inl TypeError
      | Inr (ScoreArray board) \<Rightarrow>
          let pushed = board @ [score];
              sorted_board = sort_key (\<lambda>s. (score_seconds s, score_moves s)) pushed;
              trimmed = slice0 sorted_board 20
          in Inr (ls(STORAGE_KEY \<mapsto> JSON_stringify (ScoreArray trimmed))))"

text \<open>
  The client and the service together: the local cache and the table of the server.
  \<open>fetch\<close> either rejects (a network failure) or delivers the request, whatever the
  status of the response.
\<close>

record world =
  storage :: "string \<rightharpoonup> stored_text"
  server :: db

datatype fetch_outcome = NetworkFailure | Delivered

fun difficulty_text :: "Difficulty \<Rightarrow> string" where
  "difficulty_text easy = ''easy''"
| "difficulty_text medium = ''medium''"
| "difficulty_text hard = ''hard''"

definition body_of :: "Score \<Rightarrow> body" where
  "body_of s =
     \<lparr>body_name = JStr (score_name s),
      body_seconds = JNum (Finite (of_nat (score_seconds s))),
      body_moves = JNum (Finite (of_nat (score_moves s))),
      body_difficulty = JStr (difficulty_text (score_difficulty s))\<rparr>"

text \<open>
  \<^verbatim>\<open>
  async function saveScoreRemote(score: Score) {
    try {
      await fetch(`${REMOTE_LEADERBOARD_URL}/api/scores`, { method: 'POST', ...
        body: JSON.stringify({ name: score.name, seconds: score.seconds,
                               moves: score.moves, difficulty: score.difficulty }) });
    } catch (e) {
      // network error: fall back to local
      saveScoreLocal(score);
    }
  }
  \<close>
  The part after the \<open>await\<close>, run when the request settles. The result is the world
  afterwards and the exception that escapes, if any.
\<close>

definition saveScoreRemote_settle ::
  "fetch_outcome \<Rightarrow> (jsnum \<Rightarrow> string) \<Rightarrow> int \<Rightarrow> Score \<Rightarrow> world \<Rightarrow> world \<times> exn option" where
  "saveScoreRemote_settle outcome render now score w =
     (case outcome of
        Delivered \<Rightarrow> (w\<lparr>server := snd (post_scores render now (body_of score) (server w))\<rparr>, None)
      | NetworkFailure \<Rightarrow>
          (case saveScoreLocal score (storage w) of
             Inl e \<Rightarrow> (w, Some e)
           | Inr ls \<Rightarrow> (w\<lparr>storage := ls\<rparr>, None)))"

text \<open>
  The recording at completion, in the order of its effects:
  \<^verbatim>\<open>
      // try to save remote, but keep local fallback
      saveScoreRemote(s);
      saveScoreLocal(s);
  \<close>
  \<open>saveScoreRemote(s)\<close> sends the request and returns at its \<open>await\<close>; \<open>saveScoreLocal(s)\<close>
  runs at once; the request settles later. The result is the world afterwards and the
  exceptions that escaped (none is caught by the caller). The refresh of the displayed
  leaderboard that follows writes neither the cache nor the table.
\<close>

definition recordScore ::
  "fetch_outcome \<Rightarrow> (jsnum \<Rightarrow> string) \<Rightarrow> int \<Rightarrow> Score \<Rightarrow> world \<Rightarrow> world \<times> exn list" where
  "recordScore outcome render now score w =
     (let (w1, errs1) =
            (case saveScoreLocal score (storage w) of
               Inl e \<Rightarrow> (w, [e])
             | Inr ls \<Rightarrow> (w\<lparr>storage := ls\<rparr>, []));
          (w2, err2) = saveScoreRemote_settle outcome render now score w1
      in (w2, errs1 @ (case err2 of None \<Rightarrow> [] | Some e \<Rightarrow> [e])))"

text \<open>
  One local save on a board that is an array: push, sort, keep the first 20.
\<close>

definition saved_board :: "Score \<Rightarrow> Score list \<Rightarrow> Score list" where
  "saved_board score board =
     slice0 (sort_key (\<lambda>s. (score_seconds s, score_moves s)) (board @ [score])) 20"

section \<open>Concrete sessions\<close>

text \<open>The deck of \<open>n\<close> pairs as \<open>generateDeck\<close> lays it out before the second shuffle.\<close>

definition deck_of :: "nat \<Rightarrow> Card list" where
  "deck_of n = concat (map pair_cards (enumerate 0 (take n EMOJI_POOL)))"

text \<open>
  A session in which the difficulty is changed while the callback of a match is pending.
  The instants are milliseconds since mounting: the two cards of pair \<open>p11\<close> are clicked at
  0 and 50; the difficulty is set to easy before the callback of the match is due at 650;
  the callback fires; then seven pairs of the new deck are matched by clicks, each callback
  firing 600 ms after the second card of the pair was clicked.
\<close>

definition stale_session :: "event list" where
  "stale_session =
     [Click ''p11a'' 0, Click ''p11b'' 50, SelectDifficulty easy top_draw top_draw, Timeout 650,
      Click ''p0a'' 1000, Click ''p0b'' 2000, Timeout 2600,
      Click ''p1a'' 3000, Click ''p1b'' 4000, Timeout 4600,
      Click ''p2a'' 5000, Click ''p2b'' 6000, Timeout 6600,
      Click ''p3a'' 7000, Click ''p3b'' 8000, Timeout 8600,
      Click ''p4a'' 9000, Click ''p4b'' 10000, Timeout 10600,
      Click ''p5a'' 11000, Click ''p5b'' 12000, Timeout 12600,
      Click ''p6a'' 13000, Click ''p6b'' 14000, Timeout 14600]"

text \<open>One card revealed by a click, then the Start/Pause button pressed: the game is paused.\<close>

definition paused_session :: "event list" where
  "paused_session = [Click ''p0a'' 0, StartPause]"

text \<open>
  A keyboard session: the first card (index 0) is clicked, the focus is moved to the next
  card (index 1) and Enter reveals it; Enter is then pressed twice more within the delay of
  the callback, while the two cards are revealed and input is locked.
\<close>

definition reveal_session :: "event list" where
  "reveal_session = [Click ''p0a'' 0, Key ArrowNext 100, Key Enter 200]"

definition keyboard_session :: "event list" where
  "keyboard_session = reveal_session @ [Key Enter 300, Key Enter 400]"

text \<open>
  A rendering for sessions in which no number is bound to a text column.
\<close>

definition no_render :: "jsnum \<Rightarrow> string" where
  "no_render x = []"

text \<open>
  Concrete requests and tables: a submission with \<open>seconds = -1\<close>; a table of three
  rows created at instant \<open>1000000000\<close> and one created at instant \<open>0\<close>; a query with a
  limit only, and one with a difficulty as well.
\<close>

definition negative_seconds :: body where
  "negative_seconds =
     \<lparr>body_name = JStr ''Ann'', body_seconds = JNum (Finite (- 1)),
      body_moves = JNum (Finite 20), body_difficulty = JStr ''easy''\<rparr>"

definition sample_entry :: "string \<Rightarrow> rat \<Rightarrow> rat \<Rightarrow> int \<Rightarrow> entry" where
  "sample_entry n s m t =
     \<lparr>entry_name = n, entry_seconds = s, entry_moves = m, entry_difficulty = ''easy'',
      created_at = t\<rparr>"

definition sample_db :: db where
  "sample_db =
     \<lparr>rows = [(1, sample_entry ''Dan'' 10 4 0), (2, sample_entry ''Ann'' 30 10 1000000000),
              (3, sample_entry ''Bob'' 20 15 1000000000), (4, sample_entry ''Cyd'' 20 5 1000000000)],
      seq = 4\<rparr>"

definition limit_query :: "string \<Rightarrow> query" where
  "limit_query s = \<lparr>query_difficulty = None, query_limit = Some s\<rparr>"

definition easy_query :: "string \<Rightarrow> query" where
  "easy_query s = \<lparr>query_difficulty = Some ''easy'', query_limit = Some s\<rparr>"

text \<open>
  Concrete caches and scores: a cache whose text is \<open>42\<close>; a cache with twenty scores of 10
  seconds and 8 moves, and an empty one; a score of 95 seconds and 30 moves.
\<close>

definition corrupted_cache :: "string \<rightharpoonup> stored_text" where
  "corrupted_cache = [STORAGE_KEY \<mapsto> Json (NonArray (JNum (Finite 42)))]"


definition late_score :: Score where
  "late_score =
     \<lparr>score_name = ''Player'', score_seconds = 95, score_moves = 30, score_difficulty = easy,
      score_date = 1000086400\<rparr>"


definition fresh_world :: world where
  "fresh_world = \<lparr>storage = Map.empty, server = sample_db\<rparr>"

section \<open>Properties\<close>

text \<open>
  C2. The star rating is a function of the move count \<open>M\<close> and the pair count \<open>P\<close> alone:
  it is 3 when \<open>M = 0\<close>; otherwise, with \<open>r = M / P\<close>, it is 3 when \<open>r \<le> 1.2\<close>, 2 when
  \<open>r \<le> 2.0\<close> and 1 otherwise (a zero pair count with a positive move count gives an
  infinite ratio, hence 1). In particular \<open>(0, P) \<mapsto> 3\<close>, \<open>(10, 10) \<mapsto> 3\<close>,
  \<open>(15, 10) \<mapsto> 2\<close>, \<open>(25, 10) \<mapsto> 1\<close>.
\<close>

theorem stars_rating:
  "stars 0 P = 3
   \<and> (0 < M \<and> 0 < P \<longrightarrow>
        stars M P = (if (of_nat M / of_nat P :: rat) \<le> 12 / 10 then 3
                     else if (of_nat M / of_nat P :: rat) \<le> 2 then 2 else 1))
   \<and> (0 < M \<longrightarrow> stars M 0 = 1)
   \<and> stars 10 10 = 3 \<and> stars 15 10 = 2 \<and> stars 25 10 = 1"
  by (simp add: stars_def js_div_pos_def)

theorem stars_rating_witness:
  "(0::nat) < 15 \<and> (0::nat) < 10 \<and> stars 15 10 = 2 \<and> stars 15 0 = 1 \<and> stars 0 7 = 3"
  using stars_rating [of 7 15] stars_rating [of 10 15] stars_rating [of 0 15]
  by simp

subsection \<open>Deck generation\<close>

declare string_of_nat.simps [simp del]

lemma of_char_digit_char: "d < 10 \<Longrightarrow> of_char (digit_char d) = (48 + d :: nat)"
  by (simp add: digit_char_def)

lemma nat_of_string_snoc: "nat_of_string (s @ [c]) = 10 * nat_of_string s + (of_char c - 48)"
  by (simp add: nat_of_string_def)

lemma nat_of_string_of_nat: "nat_of_string (string_of_nat n) = n"
proof (induction n rule: string_of_nat.induct)
  case (1 n)
  show ?case
  proof (cases "n < 10")
    case True
    then show ?thesis
      by (subst string_of_nat.simps) (simp add: nat_of_string_def of_char_digit_char)
  next
    case False
    then have "nat_of_string (string_of_nat (n div 10)) = n div 10"
      using "1.IH" by simp
    with False show ?thesis
      by (subst string_of_nat.simps) (simp add: nat_of_string_snoc of_char_digit_char)
  qed
qed

lemma string_of_nat_inj: "string_of_nat m = string_of_nat n \<longleftrightarrow> m = n"
  by (metis nat_of_string_of_nat)

lemma shuffle_loop_length: "length (shuffle_loop rnd i a) = length a"
  by (induction i arbitrary: a) (simp_all add: Let_def)

lemma shuffle_loop_mset: "i < length a \<Longrightarrow> mset (shuffle_loop rnd i a) = mset a"
proof (induction i arbitrary: a)
  case 0
  then show ?case by simp
next
  case (Suc k)
  let ?j = "rnd (Suc k) mod (Suc k + 1)"
  have j: "?j < length a" using Suc.prems by (simp add: less_le_trans [OF mod_less_divisor])
  have "mset (a[Suc k := a ! ?j, ?j := a ! Suc k]) = mset a"
    using Suc.prems j by (simp add: mset_swap)
  moreover have "k < length (a[Suc k := a ! ?j, ?j := a ! Suc k])"
    using Suc.prems by simp
  ultimately show ?case
    using Suc.IH [of "a[Suc k := a ! ?j, ?j := a ! Suc k]"] by (simp add: Let_def)
qed

lemma shuffle_mset: "mset (shuffle rnd xs) = mset xs"
proof (cases xs)
  case Nil
  then show ?thesis by (simp add: shuffle_def)
next
  case (Cons x ys)
  then show ?thesis by (simp add: shuffle_def shuffle_loop_mset)
qed

lemma shuffle_loop_id: "shuffle_loop (\<lambda>i. i) i a = a"
  by (induction i arbitrary: a) (simp_all add: Let_def)

lemma shuffle_id: "shuffle (\<lambda>i. i) xs = xs"
  by (simp add: shuffle_def shuffle_loop_id)

lemma EMOJI_POOL_length: "length EMOJI_POOL = 28"
  by (simp add: EMOJI_POOL_def)

lemma EMOJI_POOL_distinct: "distinct EMOJI_POOL"
  by (simp add: EMOJI_POOL_def)

lemma slice0_nonneg: "0 \<le> e \<Longrightarrow> slice0 xs e = take (nat e) xs"
  by (simp add: slice0_def)

lemma pool_props:
  assumes "0 \<le> P"
  shows "length (slice0 (shuffle rnd EMOJI_POOL) P) = min (nat P) 28"
    and "distinct (slice0 (shuffle rnd EMOJI_POOL) P)"
    and "set (slice0 (shuffle rnd EMOJI_POOL) P) \<subseteq> set EMOJI_POOL"
proof -
  have m: "mset (shuffle rnd EMOJI_POOL) = mset EMOJI_POOL"
    by (rule shuffle_mset)
  have "length (shuffle rnd EMOJI_POOL) = 28"
    using mset_eq_length [OF m] by (simp add: EMOJI_POOL_length)
  then show "length (slice0 (shuffle rnd EMOJI_POOL) P) = min (nat P) 28"
    using assms by (simp add: slice0_nonneg min.commute)
  have "distinct (shuffle rnd EMOJI_POOL)"
    using mset_eq_imp_distinct_iff [OF m] EMOJI_POOL_distinct by simp
  then show "distinct (slice0 (shuffle rnd EMOJI_POOL) P)"
    using assms by (simp add: slice0_nonneg)
  have "set (shuffle rnd EMOJI_POOL) = set EMOJI_POOL"
    using mset_eq_setD [OF m] .
  then show "set (slice0 (shuffle rnd EMOJI_POOL) P) \<subseteq> set EMOJI_POOL"
    using assms set_take_subset [of "nat P" "shuffle rnd EMOJI_POOL"] by (simp add: slice0_nonneg)
qed

lemma laid_length: "length (concat (map pair_cards (enumerate m xs))) = 2 * length xs"
  by (induction xs arbitrary: m) (simp_all add: pair_cards_def Let_def)

lemma laid_set:
  "c \<in> set (concat (map pair_cards (enumerate m xs))) \<Longrightarrow>
     \<exists>k < length xs. pairId c = ''p'' @ string_of_nat (m + k) \<and> content c = xs ! k
        \<and> \<not> matched c \<and> (cardId c = pairId c @ ''a'' \<or> cardId c = pairId c @ ''b'')"
proof (induction xs arbitrary: m)
  case Nil
  then show ?case by simp
next
  case (Cons x xs)
  from Cons.prems consider
    (here) "c \<in> set (pair_cards (m, x))" |
    (later) "c \<in> set (concat (map pair_cards (enumerate (Suc m) xs)))"
    by auto
  then show ?case
  proof cases
    case here
    then have "pairId c = ''p'' @ string_of_nat (m + 0) \<and> content c = (x # xs) ! 0
        \<and> \<not> matched c \<and> (cardId c = pairId c @ ''a'' \<or> cardId c = pairId c @ ''b'')"
      by (auto simp: pair_cards_def Let_def)
    then show ?thesis by blast
  next
    case later
    from Cons.IH [OF later] obtain k where k: "k < length xs"
      "pairId c = ''p'' @ string_of_nat (Suc m + k)" "content c = xs ! k"
      "\<not> matched c" "cardId c = pairId c @ ''a'' \<or> cardId c = pairId c @ ''b''"
      by blast
    then have "Suc k < length (x # xs) \<and> pairId c = ''p'' @ string_of_nat (m + Suc k)
        \<and> content c = (x # xs) ! Suc k
        \<and> \<not> matched c \<and> (cardId c = pairId c @ ''a'' \<or> cardId c = pairId c @ ''b'')"
      by simp
    then show ?thesis by blast
  qed
qed

lemma laid_count:
  "length (filter (\<lambda>d. pairId d = ''p'' @ string_of_nat k)
      (concat (map pair_cards (enumerate m xs))))
   = (if m \<le> k \<and> k < m + length xs then 2 else 0)"
proof (induction xs arbitrary: m)
  case Nil
  then show ?case by simp
next
  case (Cons x xs)
  have "length (filter (\<lambda>d. pairId d = ''p'' @ string_of_nat k) (pair_cards (m, x)))
        = (if k = m then 2 else 0)"
    by (auto simp: pair_cards_def Let_def string_of_nat_inj)
  with Cons.IH [of "Suc m"] show ?case by auto
qed


lemma laid_cardIds:
  "distinct (map cardId (concat (map pair_cards (enumerate m xs))))"
proof (induction xs arbitrary: m)
  case Nil
  then show ?case by simp
next
  case (Cons x xs)
  have "cardId c \<noteq> (''p'' @ string_of_nat m) @ s"
    if "c \<in> set (concat (map pair_cards (enumerate (Suc m) xs)))" and "s = ''a'' \<or> s = ''b''"
    for c s
  proof -
    from laid_set [OF that(1)] obtain k where
      k: "pairId c = ''p'' @ string_of_nat (Suc m + k)"
        "cardId c = pairId c @ ''a'' \<or> cardId c = pairId c @ ''b''"
      by blast
    then show ?thesis using that(2) by (auto simp: string_of_nat_inj)
  qed
  then have out: "(''p'' @ string_of_nat m) @ ''a'' \<notin> cardId ` set (concat (map pair_cards (enumerate (Suc m) xs)))"
    "(''p'' @ string_of_nat m) @ ''b'' \<notin> cardId ` set (concat (map pair_cards (enumerate (Suc m) xs)))"
    by (metis imageE)+
  have ids: "map cardId (pair_cards (m, x))
      = [(''p'' @ string_of_nat m) @ ''a'', (''p'' @ string_of_nat m) @ ''b'']"
    by (simp add: pair_cards_def Let_def)
  have "map cardId (concat (map pair_cards (enumerate m (x # xs))))
      = map cardId (pair_cards (m, x)) @ map cardId (concat (map pair_cards (enumerate (Suc m) xs)))"
    by simp
  then show ?case using Cons.IH [of "Suc m"] out
    by (simp add: ids del: append.simps)
qed


lemma laid_pairIds:
  "pairId ` set (concat (map pair_cards (enumerate 0 xs)))
     = (\<lambda>k. ''p'' @ string_of_nat k) ` {..<length xs}"
proof (intro equalityI subsetI)
  fix p assume "p \<in> pairId ` set (concat (map pair_cards (enumerate 0 xs)))"
  then obtain c where "c \<in> set (concat (map pair_cards (enumerate 0 xs)))" "p = pairId c"
    by blast
  with laid_set [of c 0 xs] show "p \<in> (\<lambda>k. ''p'' @ string_of_nat k) ` {..<length xs}"
    by auto
next
  fix p assume "p \<in> (\<lambda>k. ''p'' @ string_of_nat k) ` {..<length xs}"
  then obtain k where k: "k < length xs" "p = ''p'' @ string_of_nat k" by blast
  have "length (filter (\<lambda>d. pairId d = ''p'' @ string_of_nat k)
      (concat (map pair_cards (enumerate 0 xs)))) = 2"
    using k(1) laid_count [of k 0 xs] by simp
  then have "filter (\<lambda>d. pairId d = ''p'' @ string_of_nat k)
      (concat (map pair_cards (enumerate 0 xs))) \<noteq> []"
    by auto
  then obtain c where "c \<in> set (concat (map pair_cards (enumerate 0 xs)))"
    "pairId c = ''p'' @ string_of_nat k"
    by (auto simp: filter_empty_conv)
  with k(2) show "p \<in> pairId ` set (concat (map pair_cards (enumerate 0 xs)))"
    by (metis imageI)
qed

lemma filter_length_mset:
  "mset xs = mset ys \<Longrightarrow> length (filter Q xs) = length (filter Q ys)"
  by (metis mset_filter size_mset)

text \<open>
  C1. For every requested pair count \<open>P\<close> (a count, so \<open>0 \<le> P\<close>), deck generation returns
  exactly \<open>2P\<close> cards when \<open>P\<close> is at most the size of the glyph pool, 28, and clamps to the
  pool otherwise (\<open>2 * 28\<close> cards). In the deck each pair identity appears on exactly two
  cards, there are as many pair identities as pairs, two cards carry the same symbol exactly
  when they belong to the same pair, and every symbol comes from the pool.
\<close>

theorem generateDeck_pairs:
  assumes "0 \<le> P"
  shows "length (generateDeck rnd1 rnd2 P) = 2 * min (nat P) 28
    \<and> (P \<le> 28 \<longrightarrow> length (generateDeck rnd1 rnd2 P) = 2 * nat P)
    \<and> (28 < P \<longrightarrow> length (generateDeck rnd1 rnd2 P) = 2 * 28)
    \<and> card (pairId ` set (generateDeck rnd1 rnd2 P)) = min (nat P) 28
    \<and> (\<forall>c \<in> set (generateDeck rnd1 rnd2 P).
          length (filter (\<lambda>d. pairId d = pairId c) (generateDeck rnd1 rnd2 P)) = 2)
    \<and> (\<forall>c \<in> set (generateDeck rnd1 rnd2 P). \<forall>d \<in> set (generateDeck rnd1 rnd2 P).
          (pairId c = pairId d) = (content c = content d))
    \<and> (\<forall>c \<in> set (generateDeck rnd1 rnd2 P). content c \<in> set EMOJI_POOL)"
proof -
  define pool where "pool = slice0 (shuffle rnd1 EMOJI_POOL) P"
  define laid where "laid = concat (map pair_cards (enumerate 0 pool))"
  define deck where "deck = generateDeck rnd1 rnd2 P"
  have deck: "deck = shuffle rnd2 laid"
    by (simp add: deck_def generateDeck_def Let_def pool_def laid_def)
  have m: "mset deck = mset laid"
    by (simp add: deck shuffle_mset)
  have len_pool: "length pool = min (nat P) 28"
    and dist_pool: "distinct pool" and sub_pool: "set pool \<subseteq> set EMOJI_POOL"
    unfolding pool_def using pool_props [OF assms] by blast+
  have set_eq: "set deck = set laid"
    using mset_eq_setD [OF m] .
  have len: "length deck = 2 * min (nat P) 28"
    using mset_eq_length [OF m] by (simp add: laid_def laid_length len_pool)
  have idx: "\<exists>k < length pool. pairId c = ''p'' @ string_of_nat k \<and> content c = pool ! k"
    if "c \<in> set deck" for c
    using that laid_set [of c 0 pool] by (auto simp: set_eq laid_def)
  have cnt: "length (filter (\<lambda>d. pairId d = pairId c) deck) = 2" if "c \<in> set deck" for c
  proof -
    from idx [OF that] obtain k where k: "k < length pool" "pairId c = ''p'' @ string_of_nat k"
      by blast
    have "length (filter (\<lambda>d. pairId d = pairId c) deck)
        = length (filter (\<lambda>d. pairId d = pairId c) laid)"
      by (rule filter_length_mset [OF m])
    also have "\<dots> = 2"
      using k laid_count [of k 0 pool] by (simp add: laid_def)
    finally show ?thesis .
  qed
  have same: "(pairId c = pairId d) = (content c = content d)"
    if "c \<in> set deck" "d \<in> set deck" for c d
  proof -
    from idx [OF that(1)] obtain k where k: "k < length pool"
      "pairId c = ''p'' @ string_of_nat k" "content c = pool ! k" by blast
    from idx [OF that(2)] obtain l where l: "l < length pool"
      "pairId d = ''p'' @ string_of_nat l" "content d = pool ! l" by blast
    have "(pairId c = pairId d) = (k = l)"
      by (simp add: k(2) l(2) string_of_nat_inj)
    also have "\<dots> = (content c = content d)"
      using dist_pool k(1) l(1) by (simp add: k(3) l(3) nth_eq_iff_index_eq)
    finally show ?thesis .
  qed
  have glyph: "content c \<in> set EMOJI_POOL" if "c \<in> set deck" for c
    using idx [OF that] sub_pool by (metis nth_mem subsetD)
  have "pairId ` set deck = (\<lambda>k. ''p'' @ string_of_nat k) ` {..<length pool}"
    unfolding set_eq laid_def by (rule laid_pairIds)
  moreover have "inj_on (\<lambda>k. ''p'' @ string_of_nat k) {..<length pool}"
    by (simp add: inj_on_def string_of_nat_inj)
  ultimately have crd: "card (pairId ` set deck) = min (nat P) 28"
    by (simp add: card_image len_pool)
  have "P \<le> 28 \<longrightarrow> length deck = 2 * nat P" "28 < P \<longrightarrow> length deck = 2 * 28"
    using len assms by auto
  with len crd cnt same glyph show ?thesis
    unfolding deck_def by blast
qed

theorem generateDeck_pairs_witness:
  "(0::int) \<le> 8 \<and> length (generateDeck top_draw top_draw 8) = 16
    \<and> card (pairId ` set (generateDeck top_draw top_draw 8)) = 8"
  using generateDeck_pairs [of 8 top_draw top_draw] by simp

subsection \<open>Evaluating concrete sessions\<close>

lemma Suc_Suc_0: "Suc (Suc 0) = 2"
  by simp

lemma digit_char_eval:
  "digit_char 0 = CHR ''0''" "digit_char 1 = CHR ''1''" "digit_char 2 = CHR ''2''"
  "digit_char 3 = CHR ''3''" "digit_char 4 = CHR ''4''" "digit_char 5 = CHR ''5''"
  "digit_char 6 = CHR ''6''" "digit_char 7 = CHR ''7''" "digit_char 8 = CHR ''8''"
  "digit_char 9 = CHR ''9''" "digit_char (Suc 0) = CHR ''1''"
  by (simp_all add: digit_char_def char_of_def bit_simps)

lemma string_of_nat_numeral:
  "string_of_nat (numeral k) =
     (if numeral k < (10::nat) then [digit_char (numeral k)]
      else string_of_nat (numeral k div 10) @ [digit_char (numeral k mod 10)])"
  by (rule string_of_nat.simps)

lemma string_of_nat_0: "string_of_nat 0 = ''0''"
  by (simp add: string_of_nat.simps [of 0] digit_char_eval)

lemma string_of_nat_1: "string_of_nat (Suc 0) = ''1''"
  using string_of_nat.simps [of 1] by (simp add: digit_char_eval)

lemma top_draw_shuffle: "shuffle top_draw xs = xs"
proof -
  have eq: "top_draw = (\<lambda>i. i)" by (rule ext) (simp add: top_draw_def)
  show ?thesis unfolding eq by (rule shuffle_id)
qed

lemma generateDeck_top_draw: "generateDeck top_draw top_draw (int n) = deck_of n"
  by (simp add: generateDeck_def top_draw_shuffle slice0_def deck_of_def)

lemmas deck_eval = deck_of_def EMOJI_POOL_def pair_cards_def Let_def Suc_Suc_0
  string_of_nat_numeral string_of_nat_0 string_of_nat_1 digit_char_eval

lemma deck_easy: "deck_of 8 =
     [\<lparr>cardId = ''p0a'', pairId = ''p0'', content = [127822], matched = False\<rparr>,
      \<lparr>cardId = ''p0b'', pairId = ''p0'', content = [127822], matched = False\<rparr>,
      \<lparr>cardId = ''p1a'', pairId = ''p1'', content = [127820], matched = False\<rparr>,
      \<lparr>cardId = ''p1b'', pairId = ''p1'', content = [127820], matched = False\<rparr>,
      \<lparr>cardId = ''p2a'', pairId = ''p2'', content = [127815], matched = False\<rparr>,
      \<lparr>cardId = ''p2b'', pairId = ''p2'', content = [127815], matched = False\<rparr>,
      \<lparr>cardId = ''p3a'', pairId = ''p3'', content = [127827], matched = False\<rparr>,
      \<lparr>cardId = ''p3b'', pairId = ''p3'', content = [127827], matched = False\<rparr>,
      \<lparr>cardId = ''p4a'', pairId = ''p4'', content = [129361], matched = False\<rparr>,
      \<lparr>cardId = ''p4b'', pairId = ''p4'', content = [129361], matched = False\<rparr>,
      \<lparr>cardId = ''p5a'', pairId = ''p5'', content = [127826], matched = False\<rparr>,
      \<lparr>cardId = ''p5b'', pairId = ''p5'', content = [127826], matched = False\<rparr>,
      \<lparr>cardId = ''p6a'', pairId = ''p6'', content = [127819], matched = False\<rparr>,
      \<lparr>cardId = ''p6b'', pairId = ''p6'', content = [127819], matched = False\<rparr>,
      \<lparr>cardId = ''p7a'', pairId = ''p7'', content = [127817], matched = False\<rparr>,
      \<lparr>cardId = ''p7b'', pairId = ''p7'', content = [127817], matched = False\<rparr>]"
  by (simp add: deck_eval)

lemma deck_medium: "deck_of 12 =
     [\<lparr>cardId = ''p0a'', pairId = ''p0'', content = [127822], matched = False\<rparr>,
      \<lparr>cardId = ''p0b'', pairId = ''p0'', content = [127822], matched = False\<rparr>,
      \<lparr>cardId = ''p1a'', pairId = ''p1'', content = [127820], matched = False\<rparr>,
      \<lparr>cardId = ''p1b'', pairId = ''p1'', content = [127820], matched = False\<rparr>,
      \<lparr>cardId = ''p2a'', pairId = ''p2'', content = [127815], matched = False\<rparr>,
      \<lparr>cardId = ''p2b'', pairId = ''p2'', content = [127815], matched = False\<rparr>,
      \<lparr>cardId = ''p3a'', pairId = ''p3'', content = [127827], matched = False\<rparr>,
      \<lparr>cardId = ''p3b'', pairId = ''p3'', content = [127827], matched = False\<rparr>,
      \<lparr>cardId = ''p4a'', pairId = ''p4'', content = [129361], matched = False\<rparr>,
      \<lparr>cardId = ''p4b'', pairId = ''p4'', content = [129361], matched = False\<rparr>,
      \<lparr>cardId = ''p5a'', pairId = ''p5'', content = [127826], matched = False\<rparr>,
      \<lparr>cardId = ''p5b'', pairId = ''p5'', content = [127826], matched = False\<rparr>,
      \<lparr>cardId = ''p6a'', pairId = ''p6'', content = [127819], matched = False\<rparr>,
      \<lparr>cardId = ''p6b'', pairId = ''p6'', content = [127819], matched = False\<rparr>,
      \<lparr>cardId = ''p7a'', pairId = ''p7'', content = [127817], matched = False\<rparr>,
      \<lparr>cardId = ''p7b'', pairId = ''p7'', content = [127817], matched = False\<rparr>,
      \<lparr>cardId = ''p8a'', pairId = ''p8'', content = [129365], matched = False\<rparr>,
      \<lparr>cardId = ''p8b'', pairId = ''p8'', content = [129365], matched = False\<rparr>,
      \<lparr>cardId = ''p9a'', pairId = ''p9'', content = [127814], matched = False\<rparr>,
      \<lparr>cardId = ''p9b'', pairId = ''p9'', content = [127814], matched = False\<rparr>,
      \<lparr>cardId = ''p10a'', pairId = ''p10'', content = [127821], matched = False\<rparr>,
      \<lparr>cardId = ''p10b'', pairId = ''p10'', content = [127821], matched = False\<rparr>,
      \<lparr>cardId = ''p11a'', pairId = ''p11'', content = [129381], matched = False\<rparr>,
      \<lparr>cardId = ''p11b'', pairId = ''p11'', content = [129381], matched = False\<rparr>]"
  by (simp add: deck_eval)

lemma init_top_draw:
  "init top_draw top_draw =
     \<lparr>difficulty = medium, pairs = 12, deck = deck_of 12, deckId = 1, flipped = [],
      moves = 0, matches = 0, seconds = 0, running = False, locked = False,
      name = ''Player'', focusedIndex = None, timers = []\<rparr>"
  using generateDeck_top_draw [of 12] by (simp add: init_def)

lemma restart_top_draw:
  "restart top_draw top_draw p g =
     g\<lparr>deck := deck_of p, deckId := deckId g + 1, flipped := [], moves := 0, matches := 0,
       seconds := 0, running := False, locked := False, focusedIndex := None\<rparr>"
  by (simp add: restart_def generateDeck_top_draw)

lemmas game_eval = run_def handleFlip_def onKey_def js_rem_def fireTimer_def matchTimeout_def
  mismatchTimeout_def setDifficulty_def startPause_def restart_top_draw init_top_draw
  mounted_def rerender_def deck_easy deck_medium Let_def allMatched_def

subsection \<open>Flips\<close>

lemma handleFlip_locked: "locked r \<Longrightarrow> handleFlip cid now r g = Returned g"
  by (simp add: handleFlip_def)

lemma handleFlip_matched:
  "find (\<lambda>c. cardId c = cid) (deck r) = Some c \<Longrightarrow> matched c \<Longrightarrow>
     handleFlip cid now r g = Returned g"
  by (simp add: handleFlip_def)

lemma handleFlip_sole_running:
  "flipped g = [cid] \<Longrightarrow> running g \<Longrightarrow> handleFlip cid now g g = Returned g"
  by (simp add: handleFlip_def Let_def split: option.splits)

lemma handleFlip_sole_paused:
  "flipped g = [cid] \<Longrightarrow> \<not> locked g \<Longrightarrow> find (\<lambda>c. cardId c = cid) (deck g) = Some c \<Longrightarrow>
     \<not> matched c \<Longrightarrow> \<not> running g \<Longrightarrow> handleFlip cid now g g = Returned (g\<lparr>running := True\<rparr>)"
  by (simp add: handleFlip_def Let_def)

text \<open>
  C3 (as amended). A flip request on a card that is already matched leaves the whole state
  unchanged, whichever render its handler belongs to. A flip request made by a click on a
  card (its handler belongs to the current render) leaves the whole state unchanged when
  input is locked, and when the card is the sole flipped card and the timer is running;
  when the card is the sole flipped card, in the deck and unmatched, input is not locked
  and the game is not running, the click sets the running flag to true, which changes the
  state, and it changes nothing else.
\<close>

theorem handleFlip_noop:
  "((\<exists>c. find (\<lambda>c. cardId c = cid) (deck r) = Some c \<and> matched c)
      \<longrightarrow> handleFlip cid now r g = Returned g)
   \<and> (locked g \<longrightarrow> handleFlip cid now g g = Returned g)
   \<and> (flipped g = [cid] \<and> running g \<longrightarrow> handleFlip cid now g g = Returned g)
   \<and> (flipped g = [cid] \<and> \<not> locked g \<and> \<not> running g
        \<and> (\<exists>c. find (\<lambda>c. cardId c = cid) (deck g) = Some c \<and> \<not> matched c)
        \<longrightarrow> handleFlip cid now g g = Returned (g\<lparr>running := True\<rparr>)
            \<and> g\<lparr>running := True\<rparr> \<noteq> g)"
proof (intro conjI impI)
  assume "\<exists>c. find (\<lambda>c. cardId c = cid) (deck r) = Some c \<and> matched c"
  then show "handleFlip cid now r g = Returned g" using handleFlip_matched by blast
next
  assume "locked g"
  then show "handleFlip cid now g g = Returned g" by (rule handleFlip_locked)
next
  assume "flipped g = [cid] \<and> running g"
  then show "handleFlip cid now g g = Returned g" using handleFlip_sole_running by blast
next
  assume a: "flipped g = [cid] \<and> \<not> locked g \<and> \<not> running g
        \<and> (\<exists>c. find (\<lambda>c. cardId c = cid) (deck g) = Some c \<and> \<not> matched c)"
  then show "handleFlip cid now g g = Returned (g\<lparr>running := True\<rparr>)"
    using handleFlip_sole_paused by blast
  from a have "running (g\<lparr>running := True\<rparr>) \<noteq> running g" by simp
  then show "g\<lparr>running := True\<rparr> \<noteq> g" by (metis)
qed

theorem handleFlip_noop_witness:
  "locked (current (run (mounted top_draw top_draw) [Click ''p0a'' 0, Click ''p1a'' 100]))
   \<and> handleFlip ''p2a'' 200
        (current (run (mounted top_draw top_draw) [Click ''p0a'' 0, Click ''p1a'' 100]))
        (current (run (mounted top_draw top_draw) [Click ''p0a'' 0, Click ''p1a'' 100]))
       = Returned (current (run (mounted top_draw top_draw) [Click ''p0a'' 0, Click ''p1a'' 100]))
   \<and> flipped (current (run (mounted top_draw top_draw) [Click ''p0a'' 0])) = [''p0a'']
   \<and> running (current (run (mounted top_draw top_draw) [Click ''p0a'' 0]))
   \<and> handleFlip ''p0a'' 100
        (current (run (mounted top_draw top_draw) [Click ''p0a'' 0]))
        (current (run (mounted top_draw top_draw) [Click ''p0a'' 0]))
       = Returned (current (run (mounted top_draw top_draw) [Click ''p0a'' 0]))
   \<and> flipped (current (run (mounted top_draw top_draw) paused_session)) = [''p0a'']
   \<and> \<not> locked (current (run (mounted top_draw top_draw) paused_session))
   \<and> \<not> running (current (run (mounted top_draw top_draw) paused_session))
   \<and> handleFlip ''p0a'' 100
        (current (run (mounted top_draw top_draw) paused_session))
        (current (run (mounted top_draw top_draw) paused_session))
       = Returned ((current (run (mounted top_draw top_draw) paused_session))\<lparr>running := True\<rparr>)"
proof -
  let ?res = "current (run (mounted top_draw top_draw) [Click ''p0a'' 0, Click ''p1a'' 100])"
  let ?one = "current (run (mounted top_draw top_draw) [Click ''p0a'' 0])"
  let ?pau = "current (run (mounted top_draw top_draw) paused_session)"
  have l: "locked ?res"
    by (simp add: game_eval)
  have f: "flipped ?one = [''p0a'']" and r: "running ?one"
    by (simp_all add: game_eval)
  have p: "flipped ?pau = [''p0a'']" "\<not> locked ?pau" "\<not> running ?pau"
    by (simp_all add: paused_session_def game_eval)
  have "find (\<lambda>c. cardId c = ''p0a'') (deck ?pau)
      = Some \<lparr>cardId = ''p0a'', pairId = ''p0'', content = [127822], matched = False\<rparr>"
    by (simp add: paused_session_def game_eval)
  then have c: "\<exists>c. find (\<lambda>c. cardId c = ''p0a'') (deck ?pau) = Some c \<and> \<not> matched c"
    by simp
  show ?thesis
    using l f r p c
      handleFlip_noop [of "''p2a''" ?res 200 ?res]
      handleFlip_noop [of "''p0a''" ?one 100 ?one]
      handleFlip_noop [of "''p0a''" ?pau 100 ?pau]
    by simp
qed

text \<open>
  C3 as stated fails: after one card is revealed and the game is paused, a click on that
  card, the sole flipped one, starts the timer again.
\<close>

theorem handleFlip_sole_paused_counterexample:
  "flipped (current (run (mounted top_draw top_draw) paused_session)) = [''p0a'']
   \<and> \<not> locked (current (run (mounted top_draw top_draw) paused_session))
   \<and> \<not> running (current (run (mounted top_draw top_draw) paused_session))
   \<and> running (current (step (run (mounted top_draw top_draw) paused_session) (Click ''p0a'' 100)))
   \<and> handleFlip ''p0a'' 100 (current (run (mounted top_draw top_draw) paused_session))
        (current (run (mounted top_draw top_draw) paused_session))
       \<noteq> Returned (current (run (mounted top_draw top_draw) paused_session))"
  by (simp add: paused_session_def game_eval)

text \<open>
  For a click the move counter follows the reveal: it rises by 1 exactly when the click is a
  two-card reveal, and the callbacks do not change it.
\<close>

lemma reveal_iff:
  "two_card_reveal a (Click cid now) \<longleftrightarrow>
     (\<not> locked (current a)
      \<and> (\<exists>c. find (\<lambda>c. cardId c = cid) (deck (current a)) = Some c \<and> \<not> matched c)
      \<and> cid \<notin> set (flipped (current a)) \<and> length (flipped (current a)) = 1)"
  by (auto simp: two_card_reveal_def rerender_def handleFlip_def Let_def split: option.splits)

lemma click_moves_cases:
  "moves (current (step a (Click cid now))) =
     (if \<not> locked (current a)
         \<and> (\<exists>c. find (\<lambda>c. cardId c = cid) (deck (current a)) = Some c \<and> \<not> matched c)
         \<and> cid \<notin> set (flipped (current a)) \<and> length (flipped (current a)) = 1
      then moves (current a) + 1 else moves (current a))"
  by (auto simp: rerender_def handleFlip_def Let_def split: option.splits)

lemma fireTimer_moves: "moves (fst (fireTimer now g)) = moves g"
  by (simp add: fireTimer_def matchTimeout_def mismatchTimeout_def Let_def
      split: option.splits prod.splits timer.splits)

lemma click_moves:
  "moves (current (step a (Click cid now)))
     = (if two_card_reveal a (Click cid now) then moves (current a) + 1 else moves (current a))"
  "moves (current (step a (Timeout now))) = moves (current a)"
  by (simp_all only: click_moves_cases reveal_iff)
     (simp add: rerender_def fireTimer_moves)

text \<open>
  C4 fails on the code. The keydown listener is installed again only when \<open>deck\<close> or
  \<open>focusedIndex\<close> changes, and a two-card reveal changes neither: after Enter has revealed
  the second card the listener still calls the \<open>handleFlip\<close> of the render before the
  reveal, which sees one flipped card and no lock. Each further Enter passes
  \<open>if (locked) return\<close>, runs \<open>setMoves(m => m+1)\<close> on the current counter and registers
  another callback, although the flipped list already holds the two cards: after one
  two-card reveal and two more presses of Enter the counter is 3, and three callbacks are
  pending.
\<close>

theorem keyboard_moves:
  "flipped (current (run (mounted top_draw top_draw) reveal_session)) = [''p0a'', ''p0b'']
   \<and> locked (current (run (mounted top_draw top_draw) reveal_session))
   \<and> moves (current (run (mounted top_draw top_draw) reveal_session)) = 1
   \<and> \<not> two_card_reveal (run (mounted top_draw top_draw) reveal_session) (Key Enter 300)
   \<and> moves (current (step (run (mounted top_draw top_draw) reveal_session) (Key Enter 300))) = 2
   \<and> flipped (current (run (mounted top_draw top_draw) keyboard_session)) = [''p0a'', ''p0b'']
   \<and> moves (current (run (mounted top_draw top_draw) keyboard_session)) = 3
   \<and> length (timers (current (run (mounted top_draw top_draw) keyboard_session))) = 3"
  by (simp add: keyboard_session_def reveal_session_def two_card_reveal_def game_eval)

text \<open>
  C5 fails on a reachable state. \<open>restart\<close> cancels no pending callback, so the callback
  of a match outlives a change of difficulty and counts a match in the new game without
  marking any of its cards: after seven matched pairs of eight the match counter equals the
  pair count, the last closure sees \<open>matches + 1 = pairs\<close> and stops the timer, and one
  pair is still unmatched.
\<close>

theorem stale_timer_completion:
  "matches (current (run (mounted top_draw top_draw) stale_session)) = 8
   \<and> pairs (current (run (mounted top_draw top_draw) stale_session)) = 8
   \<and> \<not> allMatched (current (run (mounted top_draw top_draw) stale_session))
   \<and> \<not> running (current (run (mounted top_draw top_draw) stale_session))"
  by (simp add: stale_session_def game_eval)

subsection \<open>Completion in orderly sessions\<close>

text \<open>
  Apart from sessions of the two kinds above the match counter is right: in every state
  reached from the mounted game by a session that replaces the deck only while no callback
  is pending, and in which Enter is not handled by a listener that has missed the lock,
  \<open>matches = pairs\<close> holds exactly when every card is matched. The keydown listener
  always sees the current deck.
\<close>

lemma deck_ok_completion:
  assumes "deck_ok g"
  shows "matches g = pairs g \<longleftrightarrow> allMatched g"
proof -
  let ?M = "pairId ` {c \<in> set (deck g). matched c}"
  let ?A = "pairId ` set (deck g)"
  have u: "\<forall>c \<in> set (deck g). \<forall>d \<in> set (deck g). pairId c = pairId d \<longrightarrow> matched c = matched d"
    using assms unfolding deck_ok_def by blast
  have cnt: "card ?A = pairs g" "matches g = card ?M"
    using assms unfolding deck_ok_def by blast+
  have sub: "?M \<subseteq> ?A" by blast
  have fin: "finite ?A" by simp
  have "matches g = pairs g \<longleftrightarrow> card ?M = card ?A"
    by (simp only: cnt)
  also have "\<dots> \<longleftrightarrow> ?M = ?A"
  proof
    assume "card ?M = card ?A"
    then show "?M = ?A" by (rule card_subset_eq [OF fin sub])
  next
    assume "?M = ?A"
    then show "card ?M = card ?A" by (rule arg_cong)
  qed
  also have "\<dots> \<longleftrightarrow> (\<forall>c \<in> set (deck g). matched c)"
  proof
    assume eq: "?M = ?A"
    show "\<forall>c \<in> set (deck g). matched c"
    proof
      fix c assume c: "c \<in> set (deck g)"
      then have "pairId c \<in> ?M" using eq by blast
      then obtain d where d: "d \<in> set (deck g)" "matched d" "pairId d = pairId c" by auto
      from u d(1) have "\<forall>e \<in> set (deck g). pairId d = pairId e \<longrightarrow> matched d = matched e"
        by (rule bspec)
      then have "pairId d = pairId c \<longrightarrow> matched d = matched c"
        using c by (rule bspec)
      with d show "matched c" by simp
    qed
  next
    assume "\<forall>c \<in> set (deck g). matched c"
    then have "{c \<in> set (deck g). matched c} = set (deck g)" by blast
    then show "?M = ?A" by simp
  qed
  finally show ?thesis by (simp add: allMatched_def list_all_iff)
qed


lemma deck_ok_fresh:
  assumes "card (pairId ` set d) = p" "\<forall>c \<in> set d. \<not> matched c" "p \<le> 28"
    and "deck g = d" "pairs g = p" "matches g = 0"
  shows "deck_ok g"
proof -
  have "{c \<in> set d. matched c} = {}" using assms(2) by blast
  moreover have "\<forall>c \<in> set d. \<forall>e \<in> set d. pairId c = pairId e \<longrightarrow> matched c = matched e"
    using assms(2) by blast
  ultimately show ?thesis
    unfolding deck_ok_def assms(4,5,6) using assms(1,3) by (simp only: image_empty card.empty)
qed

lemma generateDeck_fresh:
  "card (pairId ` set (generateDeck rnd1 rnd2 (int p))) = min p 28"
  "\<forall>c \<in> set (generateDeck rnd1 rnd2 (int p)). \<not> matched c"
proof -
  have m: "mset (generateDeck rnd1 rnd2 (int p))
      = mset (concat (map pair_cards (enumerate 0 (slice0 (shuffle rnd1 EMOJI_POOL) (int p)))))"
    by (simp add: generateDeck_def Let_def shuffle_mset)
  have s: "set (generateDeck rnd1 rnd2 (int p))
      = set (concat (map pair_cards (enumerate 0 (slice0 (shuffle rnd1 EMOJI_POOL) (int p)))))"
    by (rule mset_eq_setD [OF m])
  have "inj_on (\<lambda>k. ''p'' @ string_of_nat k) {..<length (slice0 (shuffle rnd1 EMOJI_POOL) (int p))}"
    by (simp add: inj_on_def string_of_nat_inj)
  then show "card (pairId ` set (generateDeck rnd1 rnd2 (int p))) = min p 28"
    unfolding s laid_pairIds using pool_props(1) [of "int p" rnd1] by (simp add: card_image)
  show "\<forall>c \<in> set (generateDeck rnd1 rnd2 (int p)). \<not> matched c"
    unfolding s
  proof
    fix c assume "c \<in> set (concat (map pair_cards (enumerate 0 (slice0 (shuffle rnd1 EMOJI_POOL) (int p)))))"
    from laid_set [OF this] show "\<not> matched c" by (elim exE conjE)
  qed
qed


lemma deck_ok_cong:
  "deck g' = deck g \<Longrightarrow> pairs g' = pairs g \<Longrightarrow> matches g' = matches g \<Longrightarrow> deck_ok g' = deck_ok g"
  by (simp only: deck_ok_def)

lemma timer_ok_cong:
  "deck g' = deck g \<Longrightarrow> timers g' = timers g \<Longrightarrow> locked g' = locked g \<Longrightarrow> timer_ok g' = timer_ok g"
  by (simp only: timer_ok_def)

lemma handleFlip_keeps:
  "deck (state_of (handleFlip cid now r g)) = deck g"
  "pairs (state_of (handleFlip cid now r g)) = pairs g"
  "matches (state_of (handleFlip cid now r g)) = matches g"
  "deckId (state_of (handleFlip cid now r g)) = deckId g"
  by (simp_all add: handleFlip_def Let_def split: option.splits)

lemma onKey_keeps:
  "deck (state_of (onKey k now r g)) = deck g"
  "pairs (state_of (onKey k now r g)) = pairs g"
  "matches (state_of (onKey k now r g)) = matches g"
  "deckId (state_of (onKey k now r g)) = deckId g"
  by (simp_all add: onKey_def Let_def handleFlip_keeps split: key.splits option.splits)

lemma timer_ok_unlocked: "timer_ok g \<Longrightarrow> \<not> locked g \<Longrightarrow> timers g = []"
  by (auto simp: timer_ok_def split: list.splits)

lemma handleFlip_timer_ok:
  assumes "timer_ok g" and d: "deck r = deck g" and l: "locked g \<longrightarrow> locked r"
  shows "timer_ok (state_of (handleFlip cid now r g))"
proof (cases "locked r")
  case True
  then show ?thesis using assms by (simp add: handleFlip_def)
next
  case False
  with l have ul: "\<not> locked g" by blast
  then have t: "timers g = []" using assms(1) by (rule timer_ok_unlocked [rotated])
  show ?thesis
  proof (cases "find (\<lambda>c. cardId c = cid) (deck r)")
    case None
    then show ?thesis using assms(1) False by (simp add: handleFlip_def)
  next
    case (Some c)
    then have c: "c \<in> set (deck g)"
      unfolding d by (auto simp: find_Some_iff)
    show ?thesis
    proof (cases "matched c")
      case True
      then show ?thesis using assms(1) False Some by (simp add: handleFlip_def)
    next
      case m: False
      with c have "pairId c \<in> pairId ` {c \<in> set (deck g). \<not> matched c}" by blast
      then show ?thesis using False Some m t ul
        by (simp add: handleFlip_def Let_def timer_ok_def split: option.splits)
    qed
  qed
qed

lemma onKey_timer_ok:
  assumes "timer_ok g" and d: "deck r = deck g" and l: "k = Enter \<longrightarrow> locked g \<longrightarrow> locked r"
  shows "timer_ok (state_of (onKey k now r g))"
proof (cases k)
  case ArrowNext
  have "timer_ok (state_of (onKey ArrowNext now r g)) = timer_ok g"
    by (rule timer_ok_cong) (simp_all add: onKey_def Let_def)
  with assms(1) ArrowNext show ?thesis by simp
next
  case ArrowPrev
  have "timer_ok (state_of (onKey ArrowPrev now r g)) = timer_ok g"
    by (rule timer_ok_cong) (simp_all add: onKey_def Let_def)
  with assms(1) ArrowPrev show ?thesis by simp
next
  case Enter
  with l have "locked g \<longrightarrow> locked r" by simp
  from handleFlip_timer_ok [OF assms(1) d this] assms(1) Enter
  show ?thesis by (simp add: onKey_def Let_def split: option.splits)
qed

lemma matchTimeout_fields:
  "deck (fst (matchTimeout cl now g))
     = map (\<lambda>c. if pairId c = cl_pairId cl then c\<lparr>matched := True\<rparr> else c) (deck g)"
  "pairs (fst (matchTimeout cl now g)) = pairs g"
  "matches (fst (matchTimeout cl now g)) = matches g + 1"
  "timers (fst (matchTimeout cl now g)) = timers g"
  "deckId (fst (matchTimeout cl now g)) = deckId g + 1"
  by (simp_all add: matchTimeout_def Let_def)

lemma relabel_pairIds:
  assumes fp: "\<And>c. pairId (f c) = pairId c"
  shows "pairId ` set (map f d) = pairId ` set (d :: Card list)"
proof -
  have "map pairId (map f d) = map pairId d"
    by (induction d) (simp_all add: fp)
  then have "set (map pairId (map f d)) = set (map pairId d)"
    by (rule arg_cong)
  then show ?thesis by (simp only: set_map)
qed

lemma relabel_matched:
  assumes fp: "\<And>c. pairId (f c) = pairId c"
    and fm: "\<And>c. matched (f c) = (pairId c = p \<or> matched c)"
    and p: "p \<in> pairId ` set d"
  shows "pairId ` {c \<in> set (map f d). matched c} = insert p (pairId ` {c \<in> set d. matched c})"
proof (intro equalityI subsetI)
  fix q
  assume "q \<in> pairId ` {c \<in> set (map f d). matched c}"
  then obtain c where "c \<in> set (map f d)" "matched c" "q = pairId c" by blast
  then obtain c0 where c0: "c0 \<in> set d" "matched (f c0)" "q = pairId (f c0)" by auto
  then have "pairId c0 = p \<or> matched c0" "q = pairId c0"
    by (simp_all add: fm fp)
  with c0(1) show "q \<in> insert p (pairId ` {c \<in> set d. matched c})" by blast
next
  fix q
  assume "q \<in> insert p (pairId ` {c \<in> set d. matched c})"
  then consider (new) "q = p" | (old) "q \<in> pairId ` {c \<in> set d. matched c}" by blast
  then obtain c0 where c0: "c0 \<in> set d" "pairId c0 = p \<or> matched c0" "q = pairId c0"
  proof cases
    case new
    with p that show ?thesis by auto
  next
    case old
    with that show ?thesis by auto
  qed
  have "f c0 \<in> set (map f d)" using c0(1) by simp
  moreover have "matched (f c0)" using c0(2) by (simp add: fm)
  moreover have "q = pairId (f c0)" using c0(3) by (simp add: fp)
  ultimately show "q \<in> pairId ` {c \<in> set (map f d). matched c}" by blast
qed

lemma relabel_uniform:
  assumes fp: "\<And>c. pairId (f c) = pairId c"
    and fm: "\<And>c. matched (f c) = (pairId c = p \<or> matched c)"
    and u: "\<forall>c \<in> set d. \<forall>e \<in> set d. pairId c = pairId e \<longrightarrow> matched c = matched e"
  shows "\<forall>c \<in> set (map f d). \<forall>e \<in> set (map f d). pairId c = pairId e \<longrightarrow> matched c = matched e"
proof (intro ballI impI)
  fix c e
  assume "c \<in> set (map f d)" and "e \<in> set (map f d)" and eq: "pairId c = pairId e"
  then obtain c0 e0 where c0: "c0 \<in> set d" "c = f c0" and e0: "e0 \<in> set d" "e = f e0"
    by auto
  from eq have pe: "pairId c0 = pairId e0"
    by (simp add: c0(2) e0(2) fp)
  from u c0(1) have "\<forall>e \<in> set d. pairId c0 = pairId e \<longrightarrow> matched c0 = matched e"
    by (rule bspec)
  then have "pairId c0 = pairId e0 \<longrightarrow> matched c0 = matched e0"
    using e0(1) by (rule bspec)
  with pe have "matched c0 = matched e0" by simp
  with pe show "matched c = matched e"
    by (simp add: c0(2) e0(2) fm)
qed

lemma matchTimeout_deck_ok:
  assumes ok: "deck_ok g"
    and p: "cl_pairId cl \<in> pairId ` {c \<in> set (deck g). \<not> matched c}"
  shows "deck_ok (fst (matchTimeout cl now g))"
proof -
  define q where "q = cl_pairId cl"
  define f where "f = (\<lambda>c :: Card. if pairId c = q then c\<lparr>matched := True\<rparr> else c)"
  let ?M = "pairId ` {c \<in> set (deck g). matched c}"
  have fp: "pairId (f c) = pairId c" for c by (simp add: f_def)
  have fm: "matched (f c) = (pairId c = q \<or> matched c)" for c by (simp add: f_def)
  have u: "\<forall>c \<in> set (deck g). \<forall>d \<in> set (deck g). pairId c = pairId d \<longrightarrow> matched c = matched d"
    and cnt: "pairs g \<le> 28" "card (pairId ` set (deck g)) = pairs g" "matches g = card ?M"
    using ok unfolding deck_ok_def by blast+
  from p obtain c where c: "c \<in> set (deck g)" "\<not> matched c" "pairId c = q"
    unfolding q_def by auto
  have inA: "q \<in> pairId ` set (deck g)"
    using c(1) c(3) by (rule_tac x = c in image_eqI) simp_all
  have notM: "q \<notin> ?M"
  proof
    assume "q \<in> ?M"
    then obtain d where d: "d \<in> set (deck g)" "matched d" "pairId d = q" by auto
    from u c(1) have "\<forall>e \<in> set (deck g). pairId c = pairId e \<longrightarrow> matched c = matched e"
      by (rule bspec)
    then have "pairId c = pairId d \<longrightarrow> matched c = matched d"
      using d(1) by (rule bspec)
    with c d show False by simp
  qed
  have "finite ?M" by simp
  then have "card (insert q ?M) = card ?M + 1"
    using notM by simp
  then have m: "matches g + 1 = card (insert q ?M)"
    by (simp only: cnt(3))
  have fields: "deck (fst (matchTimeout cl now g)) = map f (deck g)"
    "pairs (fst (matchTimeout cl now g)) = pairs g"
    "matches (fst (matchTimeout cl now g)) = matches g + 1"
    by (simp_all add: matchTimeout_fields f_def q_def)
  show ?thesis
    unfolding deck_ok_def fields relabel_pairIds [of f, OF fp]
      relabel_matched [of f q, OF fp fm inA]
    using cnt(1,2) m relabel_uniform [of f q, OF fp fm u] by (intro conjI)
qed


lemma due_first_single: "due_first [x] = Some (x, [])"
  by simp

lemma fireTimer_ok:
  assumes d: "deck_ok g" and t: "timer_ok g"
  shows "deck_ok (fst (fireTimer now g)) \<and> timer_ok (fst (fireTimer now g))
    \<and> (deckId (fst (fireTimer now g)) = deckId g \<longrightarrow> deck (fst (fireTimer now g)) = deck g)"
proof (cases "timers g")
  case Nil
  then show ?thesis using assms by (simp add: fireTimer_def)
next
  case (Cons x ts)
  with t have ts: "ts = []"
    by (auto simp: timer_ok_def split: list.splits)
  obtain due tm where x: "x = (due, tm)" by (cases x)
  have df: "due_first (timers g) = Some ((due, tm), [])"
    by (simp add: Cons ts x)
  show ?thesis
  proof (cases "now < due")
    case True
    then show ?thesis using assms df by (simp add: fireTimer_def)
  next
    case False
    show ?thesis
    proof (cases tm)
      case MismatchTimer
      have r: "fst (fireTimer now g) = g\<lparr>timers := [], flipped := [], locked := False\<rparr>"
        using df False MismatchTimer by (simp add: fireTimer_def mismatchTimeout_def)
      have "deck_ok (g\<lparr>timers := [], flipped := [], locked := False\<rparr>) = deck_ok g"
        by (rule deck_ok_cong) simp_all
      moreover have "timer_ok (g\<lparr>timers := [], flipped := [], locked := False\<rparr>)"
        by (simp add: timer_ok_def)
      ultimately show ?thesis using d by (simp add: r)
    next
      case (MatchTimer cl)
      have p: "cl_pairId cl \<in> pairId ` {c \<in> set (deck g). \<not> matched c}"
        using t Cons ts x MatchTimer by (simp add: timer_ok_def)
      have r: "fst (fireTimer now g) = fst (matchTimeout cl now (g\<lparr>timers := []\<rparr>))"
        using df False MatchTimer by (simp add: fireTimer_def)
      have "deck_ok (g\<lparr>timers := []\<rparr>) = deck_ok g"
        by (rule deck_ok_cong) simp_all
      with d have "deck_ok (g\<lparr>timers := []\<rparr>)" by simp
      moreover have "cl_pairId cl \<in> pairId ` {c \<in> set (deck (g\<lparr>timers := []\<rparr>)). \<not> matched c}"
        using p by simp
      ultimately have "deck_ok (fst (matchTimeout cl now (g\<lparr>timers := []\<rparr>)))"
        by (rule matchTimeout_deck_ok)
      moreover have "timer_ok (fst (matchTimeout cl now (g\<lparr>timers := []\<rparr>)))"
        by (simp add: timer_ok_def matchTimeout_fields)
      moreover have "deckId (fst (matchTimeout cl now (g\<lparr>timers := []\<rparr>))) \<noteq> deckId g"
        by (simp add: matchTimeout_fields)
      ultimately show ?thesis by (simp only: r) blast
    qed
  qed
qed

lemma restart_ok:
  assumes "timers g = []" "p \<le> 28"
  shows "deck_ok (restart rnd1 rnd2 p (g\<lparr>pairs := p\<rparr>))"
    and "timer_ok (restart rnd1 rnd2 p (g\<lparr>pairs := p\<rparr>))"
    and "deckId (restart rnd1 rnd2 p (g\<lparr>pairs := p\<rparr>)) \<noteq> deckId g"
proof -
  let ?g = "restart rnd1 rnd2 p (g\<lparr>pairs := p\<rparr>)"
  have "card (pairId ` set (generateDeck rnd1 rnd2 (int p))) = p"
    using generateDeck_fresh(1) [of rnd1 rnd2 p] assms(2) by simp
  then show "deck_ok ?g"
    using generateDeck_fresh(2) assms(2)
    by (rule deck_ok_fresh) (simp_all add: restart_def)
  show "timer_ok ?g"
    using assms(1) by (simp add: timer_ok_def restart_def)
  show "deckId ?g \<noteq> deckId g"
    by (simp add: restart_def)
qed

lemma mounted_consistent: "consistent (mounted rnd1 rnd2)"
proof -
  have "card (pairId ` set (generateDeck rnd1 rnd2 (int 12))) = 12"
    using generateDeck_fresh(1) [of rnd1 rnd2 12] by simp
  then have "deck_ok (init rnd1 rnd2)"
    using generateDeck_fresh(2) [of rnd1 rnd2 12]
    by (rule deck_ok_fresh) (simp_all add: init_def)
  moreover have "timer_ok (init rnd1 rnd2)"
    by (simp add: timer_ok_def init_def)
  ultimately show ?thesis by (simp add: consistent_def mounted_def)
qed

lemma rerender_consistent:
  assumes "deck_ok g'" "timer_ok g'" "deck (listener a) = deck (current a)"
    and "deckId g' = deckId (current a) \<longrightarrow> deck g' = deck (current a)"
  shows "consistent (rerender a g')"
  using assms(3,4) unfolding consistent_def rerender_def
  by (simp add: assms(1,2))

lemma step_consistent:
  assumes c: "consistent a" and o: "orderly_event a ev"
  shows "consistent (step a ev)"
proof -
  have d: "deck_ok (current a)" and t: "timer_ok (current a)"
    and l: "deck (listener a) = deck (current a)"
    using c unfolding consistent_def by blast+
  show ?thesis
  proof (cases ev)
    case (Click cid now)
    let ?g = "state_of (handleFlip cid now (current a) (current a))"
    have "deck_ok ?g = deck_ok (current a)"
      by (rule deck_ok_cong) (rule handleFlip_keeps)+
    with d have "deck_ok ?g" by simp
    moreover have "timer_ok ?g"
      by (rule handleFlip_timer_ok [OF t]) simp_all
    moreover have "deckId ?g = deckId (current a) \<longrightarrow> deck ?g = deck (current a)"
      by (simp add: handleFlip_keeps)
    ultimately have "consistent (rerender a ?g)"
      using l by (rule_tac rerender_consistent)
    then show ?thesis using Click by simp
  next
    case (Key k now)
    let ?g = "state_of (onKey k now (listener a) (current a))"
    have "deck_ok ?g = deck_ok (current a)"
      by (rule deck_ok_cong) (rule onKey_keeps)+
    with d have "deck_ok ?g" by simp
    moreover have "k = Enter \<longrightarrow> locked (current a) \<longrightarrow> locked (listener a)"
      using o Key by auto
    then have "timer_ok ?g"
      by (rule onKey_timer_ok [OF t l])
    moreover have "deckId ?g = deckId (current a) \<longrightarrow> deck ?g = deck (current a)"
      by (simp add: onKey_keeps)
    ultimately have "consistent (rerender a ?g)"
      using l by (rule_tac rerender_consistent)
    then show ?thesis using Key by simp
  next
    case (Timeout now)
    from fireTimer_ok [OF d t, of now] l
    have "consistent (rerender a (fst (fireTimer now (current a))))"
      by (rule_tac rerender_consistent) blast+
    then show ?thesis using Timeout by simp
  next
    case (RestartClick rnd1 rnd2)
    have p: "pairs (current a) \<le> 28" using d by (simp only: deck_ok_def)
    have e: "timers (current a) = []" using o RestartClick by simp
    have eq: "(current a)\<lparr>pairs := pairs (current a)\<rparr> = current a" by simp
    from restart_ok [OF e p, of rnd1 rnd2] l
    have "consistent (rerender a (restart rnd1 rnd2 (pairs (current a)) (current a)))"
      unfolding eq by (rule_tac rerender_consistent) simp_all
    then show ?thesis using RestartClick by simp
  next
    case (SelectDifficulty dif rnd1 rnd2)
    show ?thesis
    proof (cases "dif = difficulty (current a)")
      case True
      have "consistent (rerender a (current a))"
        using d t l by (rule_tac rerender_consistent) simp_all
      with True SelectDifficulty show ?thesis by (simp add: setDifficulty_def)
    next
      case False
      have e: "timers ((current a)\<lparr>difficulty := dif\<rparr>) = []" using o SelectDifficulty by simp
      have p: "pairs_of dif \<le> 28" by (cases dif) simp_all
      from restart_ok [OF e p, of rnd1 rnd2] l
      have "consistent (rerender a
          (restart rnd1 rnd2 (pairs_of dif) ((current a)\<lparr>difficulty := dif, pairs := pairs_of dif\<rparr>)))"
        by (rule_tac rerender_consistent) simp_all
      with False SelectDifficulty show ?thesis by (simp add: setDifficulty_def)
    qed
  next
    case StartPause
    have "deck_ok (startPause (current a)) = deck_ok (current a)"
      by (rule deck_ok_cong) (simp_all add: startPause_def)
    moreover have "timer_ok (startPause (current a)) = timer_ok (current a)"
      by (rule timer_ok_cong) (simp_all add: startPause_def)
    moreover have "deck (startPause (current a)) = deck (current a)"
      by (simp add: startPause_def)
    ultimately have "consistent (rerender a (startPause (current a)))"
      using d t l by (rule_tac rerender_consistent) simp_all
    then show ?thesis using StartPause by simp
  next
    case Tick
    have "deck_ok (tick (current a)) = deck_ok (current a)"
      by (rule deck_ok_cong) (simp_all add: tick_def)
    moreover have "timer_ok (tick (current a)) = timer_ok (current a)"
      by (rule timer_ok_cong) (simp_all add: tick_def)
    moreover have "deck (tick (current a)) = deck (current a)"
      by (simp add: tick_def)
    ultimately have "consistent (rerender a (tick (current a)))"
      using d t l by (rule_tac rerender_consistent) simp_all
    then show ?thesis using Tick by simp
  qed
qed

lemma run_consistent:
  "consistent a \<Longrightarrow> orderly a evs \<Longrightarrow> consistent (run a evs)"
proof (induction evs arbitrary: a)
  case Nil
  then show ?case by (simp add: run_def)
next
  case (Cons ev evs)
  from Cons.prems have "consistent (step a ev)" "orderly (step a ev) evs"
    by (simp_all add: step_consistent)
  then have "consistent (run (step a ev) evs)" by (rule Cons.IH)
  then show ?case by (simp add: run_def)
qed

lemma orderly_completion:
  assumes "orderly (mounted rnd1 rnd2) evs"
  shows "matches (current (run (mounted rnd1 rnd2) evs)) = pairs (current (run (mounted rnd1 rnd2) evs))
     \<longleftrightarrow> allMatched (current (run (mounted rnd1 rnd2) evs))"
proof -
  have "consistent (run (mounted rnd1 rnd2) evs)"
    by (rule run_consistent [OF mounted_consistent assms])
  then have "deck_ok (current (run (mounted rnd1 rnd2) evs))"
    by (simp only: consistent_def)
  then show ?thesis by (rule deck_ok_completion)
qed

lemma listener_sees_deck:
  assumes "deck (listener a) = deck (current a)"
  shows "deck (listener (step a ev)) = deck (current (step a ev))"
proof -
  have r: "deck (listener (rerender a g')) = deck (current (rerender a g'))"
    if "deckId g' = deckId (current a) \<longrightarrow> deck g' = deck (current a)" for g'
    using that assms by (simp add: rerender_def)
  show ?thesis
  proof (cases ev)
    case (Click cid now)
    then show ?thesis by (simp add: r handleFlip_keeps)
  next
    case (Key k now)
    then show ?thesis by (simp add: r onKey_keeps)
  next
    case (Timeout now)
    have "deckId (fst (fireTimer now g)) = deckId g \<longrightarrow> deck (fst (fireTimer now g)) = deck g" for g
      by (simp add: fireTimer_def matchTimeout_def mismatchTimeout_def Let_def
          split: option.splits prod.splits timer.splits)
    with Timeout show ?thesis by (simp add: r)
  next
    case (RestartClick rnd1 rnd2)
    then show ?thesis by (simp add: r restart_def)
  next
    case (SelectDifficulty dif rnd1 rnd2)
    then show ?thesis by (simp add: r setDifficulty_def restart_def)
  next
    case StartPause
    then show ?thesis by (simp add: r startPause_def)
  next
    case Tick
    then show ?thesis by (simp add: r tick_def)
  qed
qed

lemma listener_deck:
  "deck (listener (run (mounted rnd1 rnd2) evs)) = deck (current (run (mounted rnd1 rnd2) evs))"
proof -
  have "deck (listener a) = deck (current a) \<Longrightarrow> deck (listener (run a evs)) = deck (current (run a evs))"
    for a
  proof (induction evs arbitrary: a)
    case Nil
    then show ?case by (simp add: run_def)
  next
    case (Cons ev evs)
    from listener_sees_deck [OF Cons.prems, of ev]
    have "deck (listener (run (step a ev) evs)) = deck (current (run (step a ev) evs))"
      by (rule Cons.IH)
    then show ?case by (simp add: run_def)
  qed
  then show ?thesis by (simp add: mounted_def)
qed

subsection \<open>Score insertion\<close>

lemma post_scores_payload:
  "\<not> truthy (body_name b) \<or> \<not> is_number (body_seconds b) \<or> \<not> is_number (body_moves b)
     \<or> \<not> truthy (body_difficulty b)
   \<Longrightarrow> post_scores render now b d = (Error400 ''Invalid payload'', d)"
  by (simp add: post_scores_def)

lemma post_scores_values:
  assumes "body_seconds b = JNum secs" "body_moves b = JNum mvs"
    and "jsnum_less secs 0 \<or> jsnum_greater secs 86400 \<or> jsnum_less mvs 0 \<or> jsnum_greater mvs 10000"
  shows "\<exists>msg. post_scores render now b d = (Error400 msg, d)"
proof (cases "\<not> truthy (body_name b) \<or> \<not> truthy (body_difficulty b)")
  case True
  then show ?thesis using post_scores_payload [of b] by blast
next
  case False
  with assms show ?thesis by (simp add: post_scores_def)
qed

text \<open>
  C6. Score insertion answers with a client error (status 400) and leaves the table as it
  is whenever the name is missing, \<open>seconds\<close> or \<open>moves\<close> is not a number, \<open>seconds\<close> lies
  outside \<open>[0, 86400]\<close>, \<open>moves\<close> lies outside \<open>[0, 10000]\<close>, or the difficulty is
  missing; so it does for \<open>seconds = -1\<close>, and the row count stays.
\<close>

theorem post_scores_rejects:
  assumes "body_name b = JUndefined
         \<or> \<not> is_number (body_seconds b) \<or> \<not> is_number (body_moves b)
         \<or> (\<exists>x. body_seconds b = JNum x \<and> (jsnum_less x 0 \<or> jsnum_greater x 86400))
         \<or> (\<exists>x. body_moves b = JNum x \<and> (jsnum_less x 0 \<or> jsnum_greater x 10000))
         \<or> body_difficulty b = JUndefined"
  shows "\<exists>msg. post_scores render now b d = (Error400 msg, d)"
proof -
  consider (payload) "\<not> truthy (body_name b) \<or> \<not> is_number (body_seconds b)
        \<or> \<not> is_number (body_moves b) \<or> \<not> truthy (body_difficulty b)"
    | (range) "is_number (body_seconds b)" "is_number (body_moves b)"
        "(\<exists>x. body_seconds b = JNum x \<and> (jsnum_less x 0 \<or> jsnum_greater x 86400))
         \<or> (\<exists>x. body_moves b = JNum x \<and> (jsnum_less x 0 \<or> jsnum_greater x 10000))"
    using assms by auto
  then show ?thesis
  proof cases
    case payload
    then show ?thesis using post_scores_payload [of b] by blast
  next
    case range
    from range(1) obtain secs where s: "body_seconds b = JNum secs"
      by (cases "body_seconds b") auto
    from range(2) obtain mvs where m: "body_moves b = JNum mvs"
      by (cases "body_moves b") auto
    from range(3) s m
    have "jsnum_less secs 0 \<or> jsnum_greater secs 86400 \<or> jsnum_less mvs 0 \<or> jsnum_greater mvs 10000"
      by auto
    from post_scores_values [OF s m this] show ?thesis .
  qed
qed

theorem post_scores_rejects_witness:
  "body_seconds negative_seconds = JNum (Finite (- 1)) \<and> jsnum_less (Finite (- 1)) 0
   \<and> (\<exists>msg. post_scores no_render 1000086400 negative_seconds sample_db = (Error400 msg, sample_db))
   \<and> length (rows (snd (post_scores no_render 1000086400 negative_seconds sample_db))) = 4"
proof -
  have h: "body_seconds negative_seconds = JNum (Finite (- 1))" "jsnum_less (Finite (- 1)) 0"
    by (simp_all add: negative_seconds_def)
  then have "\<exists>x. body_seconds negative_seconds = JNum x \<and> (jsnum_less x 0 \<or> jsnum_greater x 86400)"
    by blast
  then obtain msg where
    "post_scores no_render 1000086400 negative_seconds sample_db = (Error400 msg, sample_db)"
    using post_scores_rejects [of negative_seconds no_render 1000086400 sample_db] by blast
  with h show ?thesis by (simp add: sample_db_def)
qed


subsection \<open>Leaderboard query\<close>

declare skip_space.simps [simp del] bit_length.simps [simp del]

lemma skip_space_none: "space_width (map of_char s) = 0 \<Longrightarrow> skip_space s = s"
  by (subst skip_space.simps) simp

lemma bit_length_le: "n < 2 ^ k \<Longrightarrow> bit_length n \<le> k"
proof (induction k arbitrary: n)
  case 0
  then show ?case by (subst bit_length.simps) simp
next
  case (Suc k)
  show ?case
  proof (cases "n = 0")
    case True
    then show ?thesis by (subst bit_length.simps) simp
  next
    case False
    from Suc.prems have "n div 2 < 2 ^ k" by simp
    then have "bit_length (n div 2) \<le> k" by (rule Suc.IH)
    with False show ?thesis by (subst bit_length.simps) simp
  qed
qed

lemma round_double_small: "\<bar>n\<bar> < 2 ^ 53 \<Longrightarrow> round_double n = Finite (of_int n)"
proof -
  assume "\<bar>n\<bar> < 2 ^ 53"
  then have "nat \<bar>n\<bar> < 2 ^ 53" by simp
  then have "bit_length (nat \<bar>n\<bar>) \<le> 53" by (rule bit_length_le)
  then show ?thesis by (simp add: round_double_def Let_def)
qed

lemmas parse_eval = parseInt_def skip_space_none is_digit_def digit_value_def digits_value_def
  round_double_small Let_def

lemma parseInt_undefined: "parseInt ''undefined'' = None"
  by (simp add: parse_eval)

lemma parseInt_abc: "parseInt ''abc'' = None"
  by (simp add: parse_eval)

lemma parseInt_0: "parseInt ''0'' = Some (Finite 0)"
  by (simp add: parse_eval)

lemma parseInt_2: "parseInt ''2'' = Some (Finite 2)"
  by (simp add: parse_eval)

lemma parseInt_minus_1: "parseInt ''-1'' = Some (Finite (- 1))"
  by (simp add: parse_eval)

lemma bind_limit_int:
  "- (2 ^ 63) < n \<Longrightarrow> n < 2 ^ 63 \<Longrightarrow> bind_limit (Finite (of_int n)) = Some n"
proof -
  assume "- (2 ^ 63) < n" "n < 2 ^ 63"
  then have "- (2 ^ 63) < (of_int n :: rat)" "(of_int n :: rat) < 2 ^ 63"
    by (metis of_int_less_iff of_int_minus of_int_numeral of_int_power)+
  then show ?thesis by (simp add: bind_limit_def)
qed

lemma bind_limit_Some: "bind_limit x = Some n \<Longrightarrow> x = Finite (of_int n)"
  by (auto simp: bind_limit_def split: jsnum.splits if_splits)

lemma leaderboard_eq:
  "leaderboard now q d =
     (case bind_limit (limit_of q) of
        None \<Rightarrow> Status500
      | Some n \<Rightarrow>
          Rows (sql_limit n
            (sort_key (\<lambda>e. (entry_seconds e, entry_moves e))
               (filter (qualifies now q) (map snd (rows d))))))"
proof (cases "difficulty_of q")
  case None
  then have "qualifies now q = (\<lambda>e. now - 24 * 60 * 60 * 1000 \<le> created_at e)"
    by (intro ext) (simp add: qualifies_def)
  with None show ?thesis by (simp add: leaderboard_def Let_def split: option.splits)
next
  case (Some dif)
  then have "qualifies now q
      = (\<lambda>e. entry_difficulty e = dif \<and> now - 24 * 60 * 60 * 1000 \<le> created_at e)"
    by (intro ext) (simp add: qualifies_def)
  with Some show ?thesis by (simp add: leaderboard_def Let_def split: option.splits)
qed

lemma set_sql_limit: "set (sql_limit n xs) \<subseteq> set xs"
  by (simp add: sql_limit_def set_take_subset)

lemma sorted_wrt_sql_limit: "sorted_wrt R xs \<Longrightarrow> sorted_wrt R (sql_limit n xs)"
  by (simp add: sql_limit_def)

lemma length_sql_limit: "0 \<le> n \<Longrightarrow> length (sql_limit n xs) \<le> nat n"
  by (simp add: sql_limit_def)

lemma sorted_by_seconds_moves:
  "sorted_wrt (\<lambda>a b. entry_seconds a < entry_seconds b
                  \<or> (entry_seconds a = entry_seconds b \<and> entry_moves a \<le> entry_moves b))
     (sort_key (\<lambda>e. (entry_seconds e, entry_moves e)) xs)"
proof -
  have "sorted (map (\<lambda>e. (entry_seconds e, entry_moves e))
      (sort_key (\<lambda>e. (entry_seconds e, entry_moves e)) xs))"
    by (rule sorted_sort_key)
  then have "sorted_wrt (\<lambda>a b. (entry_seconds a, entry_moves a) \<le> (entry_seconds b, entry_moves b))
      (sort_key (\<lambda>e. (entry_seconds e, entry_moves e)) xs)"
    by (simp add: sorted_map)
  then show ?thesis
    by (rule sorted_wrt_mono_rel [rotated]) (auto simp: less_eq_prod_def)
qed

lemma limit_of_nonzero: "limit_of q \<noteq> Finite 0"
  by (simp add: limit_of_def split: option.splits)

lemma rows_of_subset:
  "set (rows_of (leaderboard now q d)) \<subseteq> set (filter (qualifies now q) (map snd (rows d)))"
proof (cases "bind_limit (limit_of q)")
  case None
  then show ?thesis by (simp add: leaderboard_eq)
next
  case (Some n)
  have "set (sql_limit n (sort_key (\<lambda>e. (entry_seconds e, entry_moves e))
        (filter (qualifies now q) (map snd (rows d)))))
      \<subseteq> set (sort_key (\<lambda>e. (entry_seconds e, entry_moves e))
        (filter (qualifies now q) (map snd (rows d))))"
    by (rule set_sql_limit)
  then show ?thesis using Some by (simp add: leaderboard_eq)
qed

lemma rows_of_length:
  assumes "limit_of q = Finite (of_int n)" "0 < n"
  shows "length (rows_of (leaderboard now q d)) \<le> nat n"
proof (cases "bind_limit (limit_of q)")
  case None
  then show ?thesis by (simp add: leaderboard_eq)
next
  case (Some m)
  from bind_limit_Some [OF Some] assms(1) have "m = n" by simp
  with Some assms(2) show ?thesis
    using length_sql_limit [of n] by (simp add: leaderboard_eq)
qed

text \<open>
  C7 (as amended). For every stored table (every row stamped at its insertion, so none later
  than the query) and every query, the rows of the answer are rows of the table whose
  \<open>created_at\<close> lies within the 24 hours preceding the query time, of exactly the given
  difficulty when a difficulty is given, sorted by seconds ascending with ties broken by
  moves ascending; they are at most \<open>n\<close> when the limit parameter parses to a positive
  integer \<open>n\<close>, and at most 20 when the limit is absent, not numeric or zero.
\<close>

theorem leaderboard_query:
  assumes "stamped_by now d"
  shows "(\<forall>e \<in> set (rows_of (leaderboard now q d)).
       e \<in> snd ` set (rows d)
       \<and> now - 24 * 60 * 60 * 1000 \<le> created_at e \<and> created_at e \<le> now
       \<and> (\<forall>dif. difficulty_of q = Some dif \<longrightarrow> entry_difficulty e = dif))
   \<and> sorted_wrt (\<lambda>a b. entry_seconds a < entry_seconds b
                  \<or> (entry_seconds a = entry_seconds b \<and> entry_moves a \<le> entry_moves b))
        (rows_of (leaderboard now q d))
   \<and> (\<forall>s n. query_limit q = Some s \<and> parseInt s = Some (Finite (of_int n)) \<and> 0 < n
        \<longrightarrow> length (rows_of (leaderboard now q d)) \<le> nat n)
   \<and> (query_limit q = None
        \<or> (\<exists>s. query_limit q = Some s \<and> (parseInt s = None \<or> parseInt s = Some (Finite 0)))
        \<longrightarrow> length (rows_of (leaderboard now q d)) \<le> 20)"
proof (intro conjI ballI allI impI)
  fix e assume e: "e \<in> set (rows_of (leaderboard now q d))"
  with rows_of_subset have "e \<in> set (filter (qualifies now q) (map snd (rows d)))"
    by (rule_tac subsetD)
  then have m: "e \<in> snd ` set (rows d)" and ql: "qualifies now q e"
    by auto
  show "e \<in> snd ` set (rows d)" by (rule m)
  show "now - 24 * 60 * 60 * 1000 \<le> created_at e"
    using ql by (simp add: qualifies_def)
  show "created_at e \<le> now"
    using assms m by (auto simp: stamped_by_def list_all_iff)
  fix dif assume "difficulty_of q = Some dif"
  then show "entry_difficulty e = dif"
    using ql by (simp add: qualifies_def)
next
  show "sorted_wrt (\<lambda>a b. entry_seconds a < entry_seconds b
                  \<or> (entry_seconds a = entry_seconds b \<and> entry_moves a \<le> entry_moves b))
        (rows_of (leaderboard now q d))"
  proof (cases "bind_limit (limit_of q)")
    case None
    then show ?thesis by (simp add: leaderboard_eq)
  next
    case (Some n)
    then show ?thesis
      using sorted_wrt_sql_limit [OF sorted_by_seconds_moves, of n]
      by (simp add: leaderboard_eq)
  qed
next
  fix s n assume "query_limit q = Some s \<and> parseInt s = Some (Finite (of_int n)) \<and> 0 < n"
  then have "limit_of q = Finite (of_int n)" "0 < n"
    by (simp_all add: limit_of_def)
  then show "length (rows_of (leaderboard now q d)) \<le> nat n"
    by (rule rows_of_length)
next
  assume "query_limit q = None
        \<or> (\<exists>s. query_limit q = Some s \<and> (parseInt s = None \<or> parseInt s = Some (Finite 0)))"
  then have "limit_of q = Finite (of_int 20)"
    by (auto simp: limit_of_def parseInt_undefined)
  then show "length (rows_of (leaderboard now q d)) \<le> 20"
    using rows_of_length [of q 20 now d] by simp
qed

text \<open>
  A limit beyond the 64-bit integers is bound as a real that is no integer for \<open>LIMIT\<close>:
  the request ends with status 500. White space of more than one byte is skipped.
\<close>

lemma bit_length_numeral:
  "bit_length (numeral k) = Suc (bit_length (numeral k div 2))"
  by (subst bit_length.simps) simp

lemma bit_length_0: "bit_length 0 = 0"
  by (subst bit_length.simps) simp

lemma bit_length_1: "bit_length (Suc 0) = 1"
  by (subst bit_length.simps) (simp add: bit_length_0)

lemma round_double_huge: "round_double (- 99999999999999999999) = Finite (- 100000000000000000000)"
  by (simp add: round_double_def Let_def bit_length_numeral bit_length_0 bit_length_1)

lemma parseInt_huge:
  "parseInt ''-99999999999999999999'' = Some (Finite (- 100000000000000000000))"
  using round_double_huge
  by (simp add: parseInt_def skip_space_none is_digit_def digit_value_def digits_value_def Let_def)

lemma leaderboard_huge_limit:
  "leaderboard now \<lparr>query_difficulty = None, query_limit = Some ''-99999999999999999999''\<rparr> d
     = Status500"
  by (simp add: leaderboard_eq limit_of_def parseInt_huge bind_limit_def)

lemma parseInt_spaces: "parseInt [CHR 0x20, CHR 0xC2, CHR 0xA0, CHR 0xE2, CHR 0x80, CHR 0x83, CHR ''7''] = Some (Finite 7)"
  apply (subst parseInt_def)
  apply (subst skip_space.simps, simp)+
  apply (simp add: skip_space_none is_digit_def digit_value_def digits_value_def round_double_small Let_def)
  done

text \<open>
  Tables that are stamped: the empty table, and a table after an insertion at the instant
  of the clock.
\<close>

lemma stamped_empty: "stamped_by now \<lparr>rows = [], seq = 0\<rparr>"
  by (simp add: stamped_by_def)

lemma stamped_later: "stamped_by t d \<Longrightarrow> t \<le> now \<Longrightarrow> stamped_by now d"
  by (auto simp: stamped_by_def list_all_iff)

lemma post_scores_stamped:
  "stamped_by now d \<Longrightarrow> stamped_by now (snd (post_scores render now b d))"
  by (auto simp: post_scores_def stamped_by_def Let_def
      split: jsvalue.splits jsnum.splits option.splits)

lemmas query_eval = leaderboard_eq limit_of_def difficulty_of_def qualifies_def sql_limit_def
  parseInt_0 parseInt_2 parseInt_minus_1 parseInt_abc bind_limit_def
  sample_db_def sample_entry_def limit_query_def easy_query_def

theorem leaderboard_query_witness:
  "stamped_by 1000086400 sample_db
   \<and> leaderboard 1000086400 (easy_query ''2'') sample_db
     = Rows [sample_entry ''Cyd'' 20 5 1000000000, sample_entry ''Bob'' 20 15 1000000000]
   \<and> parseInt ''2'' = Some (Finite (of_int 2))
   \<and> length (rows_of (leaderboard 1000086400 (easy_query ''2'') sample_db)) \<le> nat 2"
proof -
  have s: "stamped_by 1000086400 sample_db"
    by (simp add: stamped_by_def sample_db_def sample_entry_def)
  have l: "leaderboard 1000086400 (easy_query ''2'') sample_db
     = Rows [sample_entry ''Cyd'' 20 5 1000000000, sample_entry ''Bob'' 20 15 1000000000]"
    by (simp add: query_eval)
  have p: "parseInt ''2'' = Some (Finite (of_int 2))"
    by (simp add: parseInt_2)
  have q: "query_limit (easy_query ''2'') = Some ''2''"
    by (simp add: easy_query_def)
  show ?thesis
    using leaderboard_query [OF s, of "easy_query ''2''"] s l p q
    by (simp del: set_simps list.set)
qed

text \<open>
  C7 as stated fails: with \<open>limit=0\<close> the requested limit is 0 and three rows come back,
  and so they do with \<open>limit=-1\<close>.
\<close>

theorem leaderboard_limit_counterexample:
  "stamped_by 1000086400 sample_db
   \<and> query_limit (limit_query ''0'') = Some ''0'' \<and> parseInt ''0'' = Some (Finite 0)
   \<and> length (rows_of (leaderboard 1000086400 (limit_query ''0'') sample_db)) = 3
   \<and> query_limit (limit_query ''-1'') = Some ''-1'' \<and> parseInt ''-1'' = Some (Finite (- 1))
   \<and> length (rows_of (leaderboard 1000086400 (limit_query ''-1'') sample_db)) = 3"
  by (simp add: query_eval stamped_by_def)

subsection \<open>Default limit\<close>

text \<open>
  C10. When the limit parameter is absent, not numeric, or parses to 0, the limit is 20.
  The limit is never 0: a query with \<open>limit=0\<close> returns the first 20 qualifying rows, and
  no query is answered with an empty result while a row qualifies.
\<close>

theorem limit_default:
  "(query_limit q = None
      \<or> (\<exists>s. query_limit q = Some s \<and> (parseInt s = None \<or> parseInt s = Some (Finite 0)))
      \<longrightarrow> limit_of q = Finite 20)
   \<and> limit_of q \<noteq> Finite 0
   \<and> leaderboard now (q\<lparr>query_limit := Some ''0''\<rparr>) d
       = Rows (take 20 (sort_key (\<lambda>e. (entry_seconds e, entry_moves e))
           (filter (qualifies now q) (map snd (rows d)))))
   \<and> (filter (qualifies now q) (map snd (rows d)) \<noteq> [] \<longrightarrow> leaderboard now q d \<noteq> Rows [])"
proof (intro conjI impI)
  assume "query_limit q = None
      \<or> (\<exists>s. query_limit q = Some s \<and> (parseInt s = None \<or> parseInt s = Some (Finite 0)))"
  then show "limit_of q = Finite 20"
    by (auto simp: limit_of_def parseInt_undefined)
next
  show "limit_of q \<noteq> Finite 0" by (rule limit_of_nonzero)
next
  have "limit_of (q\<lparr>query_limit := Some ''0''\<rparr>) = Finite (of_int 20)"
    by (simp add: limit_of_def parseInt_0)
  then have "bind_limit (limit_of (q\<lparr>query_limit := Some ''0''\<rparr>)) = Some 20"
    using bind_limit_int [of 20] by simp
  moreover have "qualifies now (q\<lparr>query_limit := Some ''0''\<rparr>) = qualifies now q"
    by (intro ext) (simp add: qualifies_def difficulty_of_def)
  ultimately show "leaderboard now (q\<lparr>query_limit := Some ''0''\<rparr>) d
       = Rows (take 20 (sort_key (\<lambda>e. (entry_seconds e, entry_moves e))
           (filter (qualifies now q) (map snd (rows d)))))"
    by (simp add: leaderboard_eq sql_limit_def)
next
  assume ne: "filter (qualifies now q) (map snd (rows d)) \<noteq> []"
  then have s: "sort_key (\<lambda>e. (entry_seconds e, entry_moves e))
      (filter (qualifies now q) (map snd (rows d))) \<noteq> []"
    by (metis length_sort length_0_conv)
  show "leaderboard now q d \<noteq> Rows []"
  proof (cases "bind_limit (limit_of q)")
    case None
    then show ?thesis by (simp add: leaderboard_eq)
  next
    case (Some n)
    from bind_limit_Some [OF Some] limit_of_nonzero [of q] have "n \<noteq> 0" by auto
    then have "n < 0 \<or> 0 < nat n" by linarith
    with Some s show ?thesis by (auto simp: leaderboard_eq sql_limit_def)
  qed
qed

theorem limit_default_witness:
  "query_limit (limit_query ''0'') = Some ''0'' \<and> parseInt ''0'' = Some (Finite 0)
   \<and> limit_of (limit_query ''0'') = Finite 20
   \<and> parseInt ''abc'' = None \<and> limit_of (limit_query ''abc'') = Finite 20
   \<and> filter (qualifies 1000086400 (limit_query ''0'')) (map snd (rows sample_db)) \<noteq> []
   \<and> leaderboard 1000086400 (limit_query ''0'') sample_db \<noteq> Rows []"
proof -
  have a: "query_limit (limit_query ''0'') = Some ''0''" "parseInt ''0'' = Some (Finite 0)"
    "query_limit (limit_query ''abc'') = Some ''abc''" "parseInt ''abc'' = None"
    by (simp_all add: limit_query_def parseInt_0 parseInt_abc)
  have b: "filter (qualifies 1000086400 (limit_query ''0'')) (map snd (rows sample_db)) \<noteq> []"
    by (simp add: query_eval)
  show ?thesis
    using a b limit_default [of "limit_query ''0''" 1000086400 sample_db]
      limit_default [of "limit_query ''abc''" 1000086400 sample_db]
    by simp
qed

subsection \<open>Local cache\<close>

text \<open>
  Retrieval never throws: an absent, empty or unparseable stored value yields the empty
  sequence, and a stored value that parses is returned as it is.
\<close>

lemma loadLeaderboard_total:
  "(\<exists>v. loadLeaderboard ls = Inr v)
   \<and> (ls STORAGE_KEY = None \<or> ls STORAGE_KEY = Some EmptyText \<or> ls STORAGE_KEY = Some Garbage
        \<longrightarrow> loadLeaderboard ls = Inr (ScoreArray []))
   \<and> (\<forall>v. ls STORAGE_KEY = Some (Json v) \<longrightarrow> loadLeaderboard ls = Inr v)"
  by (auto simp: loadLeaderboard_def JSON_parse_def Let_def
      split: option.splits stored_text.splits sum.splits)

text \<open>
  C9 fails on the code. The stored text \<open>42\<close> is corrupted, not a sequence of scores, yet it
  parses: \<open>loadLeaderboard\<close> returns the number 42 under its return type \<open>Score[]\<close>, where
  its other paths return the empty sequence for a bad cache, and the next local save throws
  on \<open>board.push\<close>.
\<close>

theorem loadLeaderboard_non_array:
  "corrupted_cache STORAGE_KEY = Some (Json (NonArray (JNum (Finite 42))))
   \<and> loadLeaderboard corrupted_cache = Inr (NonArray (JNum (Finite 42)))
   \<and> loadLeaderboard corrupted_cache \<noteq> Inr (ScoreArray [])
   \<and> saveScoreLocal late_score corrupted_cache = Inl TypeError"
  by (simp add: corrupted_cache_def loadLeaderboard_def saveScoreLocal_def JSON_parse_def)

subsection \<open>Score recorder\<close>

lemma saveScoreLocal_array:
  "loadLeaderboard ls = Inr (ScoreArray board) \<Longrightarrow>
     saveScoreLocal score ls = Inr (ls(STORAGE_KEY \<mapsto> Json (ScoreArray (saved_board score board))))"
  by (simp add: saveScoreLocal_def saved_board_def JSON_stringify_def Let_def)

lemma loadLeaderboard_saved:
  "loadLeaderboard (ls(STORAGE_KEY \<mapsto> Json v)) = Inr v"
  by (simp add: loadLeaderboard_def JSON_parse_def)

lemma saved_board_eq:
  "saved_board score board = take 20 (sort_key (\<lambda>s. (score_seconds s, score_moves s)) (board @ [score]))"
  by (simp add: saved_board_def slice0_def)









text \<open>
  After a network failure both calls of \<open>saveScoreLocal\<close> have run: an empty cache then
  holds the score twice.
\<close>

lemma recordScore_network_failure_twice:
  "snd (recordScore NetworkFailure no_render 1000086400 late_score fresh_world) = []
   \<and> loadLeaderboard
        (storage (fst (recordScore NetworkFailure no_render 1000086400 late_score fresh_world)))
       = Inr (ScoreArray [late_score, late_score])
   \<and> server (fst (recordScore NetworkFailure no_render 1000086400 late_score fresh_world))
       = sample_db"
proof -
  have l0: "loadLeaderboard (storage fresh_world) = Inr (ScoreArray [])"
    by (simp add: fresh_world_def loadLeaderboard_def)
  have s1: "saved_board late_score [] = [late_score]"
    by (simp add: saved_board_eq)
  have s2: "saved_board late_score [late_score] = [late_score, late_score]"
    by (simp add: saved_board_eq)
  have l1: "loadLeaderboard ((storage fresh_world)(STORAGE_KEY \<mapsto> Json (ScoreArray [late_score])))
      = Inr (ScoreArray [late_score])"
    by (rule loadLeaderboard_saved)
  show ?thesis
    using saveScoreLocal_array [OF l0, of late_score] saveScoreLocal_array [OF l1, of late_score]
    by (simp add: recordScore_def saveScoreRemote_settle_def s1 s2 loadLeaderboard_saved
        fresh_world_def)
qed

text \<open>The callback of a match hands a score to the recorder exactly at completion.\<close>

lemma matchTimeout_completion:
  "snd (matchTimeout cl now g) =
     (if cl_matches cl + 1 = cl_pairs cl
      then Some \<lparr>score_name = (if cl_name cl = [] then ''Player'' else cl_name cl),
                 score_seconds = cl_seconds cl, score_moves = cl_moves cl + 1,
                 score_difficulty = cl_difficulty cl, score_date = now\<rparr>
      else None)"
  by (simp add: matchTimeout_def Let_def)


end
